theory Spec2Isabelle
  imports Complex_Main "HOL-Library.Word"
begin

section \<open>Python values, errors and library functions\<close>

text \<open>
  The module under verification is \<^verbatim>\<open>lib/datasets/WiderPedestrian.py\<close>, the adapter of
  the WIDER pedestrian data set to the roidb interface. Every \<^verbatim>\<open>raise\<close> and every
  failing \<^verbatim>\<open>assert\<close> of the source is a value of \<open>error\<close>; a function that can fail
  returns \<open>error + 'a\<close> with \<open>Inl\<close> for the exception.
\<close>

datatype error = AssertionError | KeyError | IndexError | TypeError | IOError | OverflowError

text \<open>
  The attribute \<^verbatim>\<open>_year\<close> is the only place where the dynamic type of a value decides what
  the code does, so it is kept as a tagged Python value.
\<close>

datatype pyval = PyInt int | PyStr string

text \<open>\<^verbatim>\<open>s + v\<close> for a string \<^verbatim>\<open>s\<close>: concatenation when \<^verbatim>\<open>v\<close> is a string, TypeError otherwise.\<close>

definition str_add :: "string \<Rightarrow> pyval \<Rightarrow> error + string" where
  "str_add s v = (case v of PyStr t \<Rightarrow> Inr (s @ t) | PyInt i \<Rightarrow> Inl TypeError)"

text \<open>\<^verbatim>\<open>os.path.join\<close> (posixpath): one step of its loop, then the loop.\<close>

definition join_step :: "string \<Rightarrow> string \<Rightarrow> string" where
  "join_step path b =
     (if b \<noteq> [] \<and> hd b = CHR ''/'' then b
      else if path = [] \<or> last path = CHR ''/'' then path @ b
      else path @ ''/'' @ b)"

definition osp_join :: "string \<Rightarrow> string list \<Rightarrow> string" where
  "osp_join a p = foldl join_step a p"

text \<open>\<^verbatim>\<open>str(n)\<close> of an integer in decimal, and \<^verbatim>\<open>str.zfill\<close>.\<close>

fun str_nat :: "nat \<Rightarrow> string" where
  "str_nat n =
     (if n < 10 then [''0123456789'' ! n]
      else str_nat (n div 10) @ [''0123456789'' ! (n mod 10)])"

declare str_nat.simps [simp del]

definition str_int :: "int \<Rightarrow> string" where
  "str_int i = (if i < 0 then CHR ''-'' # str_nat (nat (- i)) else str_nat (nat i))"

definition zfill :: "nat \<Rightarrow> string \<Rightarrow> string" where
  "zfill w s =
     (if w \<le> length s then s
      else if s \<noteq> [] \<and> (hd s = CHR ''+'' \<or> hd s = CHR ''-'')
        then hd s # replicate (w - length s) CHR ''0'' @ tl s
      else replicate (w - length s) CHR ''0'' @ s)"

text \<open>The number a string of decimal digits stands for, to say what \<^verbatim>\<open>str\<close> computes.\<close>

definition digit_of :: "char \<Rightarrow> nat" where
  "digit_of c = length (takeWhile (\<lambda>d. d \<noteq> c) ''0123456789'')"

definition dec_value :: "string \<Rightarrow> nat" where
  "dec_value s = foldl (\<lambda>a c. 10 * a + digit_of c) 0 s"


text \<open>
  numpy computes with 64-bit integers (\<^verbatim>\<open>np.int64\<close>, the default integer of a 64-bit
  Linux): the sum of two of them wraps around.
\<close>

definition int64_add :: "int \<Rightarrow> int \<Rightarrow> int" where
  "int64_add a b = (a + b + 2 ^ 63) mod 2 ^ 64 - 2 ^ 63"

text \<open>
  Storing a Python integer into a float32 array: the integer is first made a C double
  (rounded to 53 significant bits, ties to even; OverflowError when that is beyond the
  doubles), then a float (rounded to 24 bits, infinite when beyond the floats). A finite
  float32 that comes from an integer is an integer, and is kept as one.
\<close>

fun bitlen :: "nat \<Rightarrow> nat" where
  "bitlen n = (if n = 0 then 0 else Suc (bitlen (n div 2)))"

declare bitlen.simps [simp del]

definition round_bits :: "nat \<Rightarrow> nat \<Rightarrow> nat" where
  "round_bits p m =
     (if bitlen m \<le> p then m
      else (let e = bitlen m - p; q = m div 2 ^ e; r = m mod 2 ^ e; h = 2 ^ (e - 1)
            in (if h < r \<or> (r = h \<and> odd q) then q + 1 else q) * 2 ^ e))"

datatype float32 = F32 int | F32_inf | F32_neg_inf

definition store_float32 :: "int \<Rightarrow> error + float32" where
  "store_float32 a =
     (let d = round_bits 53 (nat \<bar>a\<bar>)
      in if 2 ^ 1024 \<le> d then Inl OverflowError
         else (let f = round_bits 24 d
               in if 2 ^ 128 \<le> f then Inr (if a < 0 then F32_neg_inf else F32_inf)
                  else Inr (F32 (if a < 0 then - int f else int f))))"

text \<open>
  A \<^verbatim>\<open>dict\<close> built from a list of pairs keeps the last value of a repeated key; a lookup
  of a missing key raises KeyError. Python's list indexing counts a negative index from the
  end and raises IndexError out of range.
\<close>

definition dict_get :: "('k \<times> 'v) list \<Rightarrow> 'k \<Rightarrow> error + 'v" where
  "dict_get d k = (case map_of (rev d) k of None \<Rightarrow> Inl KeyError | Some v \<Rightarrow> Inr v)"

definition py_nth :: "'a list \<Rightarrow> int \<Rightarrow> error + 'a" where
  "py_nth xs i =
     (if 0 \<le> i \<and> i < int (length xs) then Inr (xs ! nat i)
      else if i < 0 \<and> - int (length xs) \<le> i then Inr (xs ! nat (int (length xs) + i))
      else Inl IndexError)"

fun mapM :: "('a \<Rightarrow> error + 'b) \<Rightarrow> 'a list \<Rightarrow> error + 'b list" where
  "mapM f [] = Inr []"
| "mapM f (x # xs) =
     (case f x of
        Inl e \<Rightarrow> Inl e
      | Inr y \<Rightarrow> (case mapM f xs of Inl e \<Rightarrow> Inl e | Inr ys \<Rightarrow> Inr (y # ys)))"

section \<open>The data model\<close>

text \<open>
  The annotation index (pycocotools' \<^verbatim>\<open>COCO\<close>) is an external collaborator; the record holds
  what its queries answer: the categories as (id, name) in the order of \<^verbatim>\<open>getCatIds()\<close>,
  the image ids of \<^verbatim>\<open>getImgIds()\<close>, the image entry of \<^verbatim>\<open>loadImgs\<close> and the annotations
  of an image (\<^verbatim>\<open>loadAnns(getAnnIds(imgIds=index, iscrowd=None))\<close>).

  The numbers of an annotation are the integers of the JSON file, within the 64 bits numpy
  gives them. A file may also carry fractions, which Python reads as floats; the arithmetic
  of floats is outside this model, which covers the files with integer boxes and areas.
\<close>

record annotation =
  bbox :: "int \<times> int \<times> int \<times> int"
  area :: int
  category_id :: int
  iscrowd :: bool

record image_entry =
  img_width :: int
  img_height :: int

record coco =
  cats :: "(int \<times> string) list"
  getImgIds :: "int list"
  loadImgs :: "int \<rightharpoonup> image_entry"
  imgToAnns :: "int \<Rightarrow> annotation list"

text \<open>
  Modelled from the spec: the base class \<^verbatim>\<open>imdb\<close> is not among the sources. Its
  properties are read as the data model of the specification has them: \<^verbatim>\<open>name\<close>,
  \<^verbatim>\<open>classes\<close> and \<^verbatim>\<open>image_index\<close> return the stored attribute,
  \<^verbatim>\<open>num_classes\<close> and \<^verbatim>\<open>num_images\<close> are the lengths of the class list and of the
  image index, \<^verbatim>\<open>cache_path\<close> is a directory given from outside, and \<^verbatim>\<open>roidb\<close> is
  the list of records that runs parallel to the index.
\<close>

text \<open>
  A roidb entry. \<^verbatim>\<open>boxes\<close> is a numpy array of dtype uint16, so a coordinate is a 16-bit
  word and every store into it wraps modulo 65536. The overlap values are only ever -1, 0
  and 1, which every float holds exactly. An area is the float32 the integer rounds to. A
  class label (int32) is an index of the class list and is kept as the number it is.
\<close>

type_synonym box = "int \<times> int \<times> int \<times> int"
type_synonym box16 = "16 word \<times> 16 word \<times> 16 word \<times> 16 word"

record image_record =
  width :: int
  height :: int
  boxes :: "box16 list"
  gt_classes :: "nat list"
  gt_overlaps :: "rat list list"
  flipped :: bool
  seg_areas :: "float32 list"

record config =
  use_salt :: bool
  cleanup :: bool

record dataset =
  name :: string
  config :: config
  year :: pyval
  image_set :: string
  devkit_path :: string
  use_cache :: bool
  ann_path :: string
  data_path :: string
  COCO :: coco
  classes :: "string list"
  class_to_ind :: "(string \<times> nat) list"
  class_to_coco_cat_id :: "(string \<times> int) list"
  image_index :: "int list"
  data_name :: string

section \<open>Construction and configuration\<close>

definition competition_mode :: "bool \<Rightarrow> dataset \<Rightarrow> dataset" where
  "competition_mode on ds =
     (if on then ds\<lparr>config := (config ds)\<lparr>use_salt := False, cleanup := False\<rparr>\<rparr>
      else ds\<lparr>config := (config ds)\<lparr>use_salt := True, cleanup := True\<rparr>\<rparr>)"

definition get_default_path :: "string \<Rightarrow> string" where
  "get_default_path DATA_DIR = osp_join DATA_DIR [''WiderPedestrian'']"

definition get_ann_file :: "string \<Rightarrow> string \<Rightarrow> string \<Rightarrow> string" where
  "get_ann_file dpath apath iset =
     osp_join dpath [apath, ''WiderPedestrian'' @ ''_'' @ iset @ ''.json'']"

text \<open>
  \<^verbatim>\<open>__init__\<close>. \<open>files\<close> maps the path of an annotation file to the index that
  \<^verbatim>\<open>COCO(path)\<close> builds from it (an unreadable file is an IOError); \<open>DATA_DIR\<close> is
  \<^verbatim>\<open>cfg.DATA_DIR\<close>. The name is set by the base class from \<^verbatim>\<open>'WiderPedestrian_' + image_set\<close>.
\<close>

definition init ::
  "(string \<rightharpoonup> coco) \<Rightarrow> string \<Rightarrow> string \<Rightarrow> string option \<Rightarrow> string option \<Rightarrow> error + dataset"
where
  "init files DATA_DIR iset dkit apath =
     (let dk = (case dkit of None \<Rightarrow> get_default_path DATA_DIR | Some p \<Rightarrow> p);
          uc = (if apath = None then True else False);
          ap = (case apath of Some a \<Rightarrow> a | None \<Rightarrow> ''annotations'');
          dp = osp_join dk []
      in case files (get_ann_file dp ap iset) of
           None \<Rightarrow> Inl IOError
         | Some c \<Rightarrow>
             (let cls = ''__background__'' # map snd (cats c)
              in Inr (competition_mode False
                   \<lparr>name = ''WiderPedestrian_'' @ iset,
                    config = \<lparr>use_salt = True, cleanup = True\<rparr>,
                    year = PyInt 2018,
                    image_set = iset,
                    devkit_path = dk,
                    use_cache = uc,
                    ann_path = ap,
                    data_path = dp,
                    COCO = c,
                    classes = cls,
                    class_to_ind = zip cls [0..<length cls],
                    class_to_coco_cat_id = zip (map snd (cats c)) (map fst (cats c)),
                    image_index = getImgIds c,
                    data_name = iset\<rparr>)))"

section \<open>Image paths\<close>

text \<open>
  \<^verbatim>\<open>image_path_from_index\<close> and \<^verbatim>\<open>image_path_at\<close>. \<open>ex\<close> is \<^verbatim>\<open>os.path.exists\<close> on the
  disk as it is. Both only return a value: nothing is written.
\<close>

definition image_path_from_index :: "(string \<Rightarrow> bool) \<Rightarrow> dataset \<Rightarrow> int \<Rightarrow> error + string" where
  "image_path_from_index ex ds index =
     (let file_name = ''img'' @ zfill 5 (str_int index) @ ''.jpg'';
          image_path = osp_join (data_path ds) [''JPEGImages'', file_name]
      in if ex image_path then Inr image_path else Inl AssertionError)"

definition image_path_at :: "(string \<Rightarrow> bool) \<Rightarrow> dataset \<Rightarrow> int \<Rightarrow> error + string" where
  "image_path_at ex ds i =
     (case py_nth (image_index ds) i of
        Inl e \<Rightarrow> Inl e
      | Inr index \<Rightarrow> image_path_from_index ex ds index)"

section \<open>Annotation-to-record conversion\<close>

text \<open>
  The box sanitising of \<^verbatim>\<open>_load_coco_annotation\<close>: the clipped box of one annotation
  (the four \<^verbatim>\<open>np.max\<close>/\<^verbatim>\<open>np.min\<close> lines), and the loop that keeps an annotation, with
  its \<^verbatim>\<open>clean_bbox\<close>, when the test of the source passes.
\<close>

definition clean_bbox :: "int \<Rightarrow> int \<Rightarrow> annotation \<Rightarrow> box" where
  "clean_bbox w h obj =
     (case bbox obj of (bx, by, bw, bh) \<Rightarrow>
        (let x1 = max 0 bx;
             y1 = max 0 by;
             x2 = min (w - 1) (int64_add x1 (max 0 (bw - 1)));
             y2 = min (h - 1) (int64_add y1 (max 0 (bh - 1)))
         in (x1, y1, x2, y2)))"

fun sanitize :: "int \<Rightarrow> int \<Rightarrow> annotation list \<Rightarrow> (annotation \<times> box) list" where
  "sanitize w h [] = []"
| "sanitize w h (obj # objs) =
     (case clean_bbox w h obj of (x1, y1, x2, y2) \<Rightarrow>
        (if area obj > 0 \<and> x2 \<ge> x1 \<and> y2 \<ge> y1
         then (obj, (x1, y1, x2, y2)) # sanitize w h objs
         else sanitize w h objs))"

text \<open>
  The lookup table from category ids to class indices, built from the class table for every
  class but the background.
\<close>

definition coco_cat_id_to_class_ind :: "dataset \<Rightarrow> error + (int \<times> nat) list" where
  "coco_cat_id_to_class_ind ds =
     mapM (\<lambda>cls.
        case dict_get (class_to_coco_cat_id ds) cls of
          Inl e \<Rightarrow> Inl e
        | Inr cid \<Rightarrow> (case dict_get (class_to_ind ds) cls of
                       Inl e \<Rightarrow> Inl e
                     | Inr ind \<Rightarrow> Inr (cid, ind)))
       (tl (classes ds))"

text \<open>
  Storing a clipped box into the uint16 array, and one row of the overlap matrix: all
  -1.0 for a crowd annotation, else zeros with 1.0 at the class index (an index outside the
  row is numpy's IndexError).
\<close>

definition store_box :: "box \<Rightarrow> box16" where
  "store_box b = (case b of (x1, y1, x2, y2) \<Rightarrow>
     (word_of_int x1, word_of_int y1, word_of_int x2, word_of_int y2))"

definition overlap_row :: "nat \<Rightarrow> bool \<Rightarrow> nat \<Rightarrow> error + rat list" where
  "overlap_row num_classes crowd cls =
     (if crowd then Inr (replicate num_classes (- 1))
      else if cls < num_classes then Inr ((replicate num_classes 0)[cls := 1])
      else Inl IndexError)"

text \<open>One iteration of the second loop: the four values written at row \<open>ix\<close>.\<close>

definition fill_row ::
  "(int \<times> nat) list \<Rightarrow> nat \<Rightarrow> annotation \<times> box
     \<Rightarrow> error + (box16 \<times> nat \<times> float32 \<times> rat list)"
where
  "fill_row table num_classes ob =
     (case dict_get table (category_id (fst ob)) of
        Inl e \<Rightarrow> Inl e
      | Inr cls \<Rightarrow>
          (case store_float32 (area (fst ob)) of
             Inl e \<Rightarrow> Inl e
           | Inr a \<Rightarrow>
               (case overlap_row num_classes (iscrowd (fst ob)) cls of
                  Inl e \<Rightarrow> Inl e
                | Inr row \<Rightarrow> Inr (store_box (snd ob), cls, a, row))))"

text \<open>
  Modelled from the spec: \<^verbatim>\<open>ds_utils.validate_boxes\<close> is not among the sources. It is taken
  to assert the invariant the data model gives for an ImageRecord: every box has
  \<open>x1 \<ge> 0\<close>, \<open>y1 \<ge> 0\<close>, \<open>x2 \<ge> x1\<close>, \<open>y2 \<ge> y1\<close> and lies left of \<open>width\<close> and above
  \<open>height\<close>. Its argument is the uint16 array as stored.
\<close>

definition validate_boxes :: "box16 list \<Rightarrow> int \<Rightarrow> int \<Rightarrow> bool" where
  "validate_boxes bs w h =
     list_all (\<lambda>(x1, y1, x2, y2).
        0 \<le> uint x1 \<and> 0 \<le> uint y1 \<and> uint x1 \<le> uint x2 \<and> uint y1 \<le> uint y2 \<and>
        uint x2 < w \<and> uint y2 < h) bs"

text \<open>
  Three notions to state what the conversion guarantees: the test that keeps an annotation,
  a box that lies inside a \<open>w\<close> by \<open>h\<close> image with its corners in order, and the
  numbers a stored box holds.
\<close>

definition kept :: "int \<Rightarrow> int \<Rightarrow> annotation \<Rightarrow> bool" where
  "kept w h obj = (case clean_bbox w h obj of (x1, y1, x2, y2) \<Rightarrow>
     area obj > 0 \<and> x2 \<ge> x1 \<and> y2 \<ge> y1)"

definition in_image :: "int \<Rightarrow> int \<Rightarrow> box \<Rightarrow> bool" where
  "in_image w h b = (case b of (x1, y1, x2, y2) \<Rightarrow>
     0 \<le> x1 \<and> x1 \<le> x2 \<and> x2 \<le> w - 1 \<and> 0 \<le> y1 \<and> y1 \<le> y2 \<and> y2 \<le> h - 1)"

definition box_uint :: "box16 \<Rightarrow> box" where
  "box_uint b = (case b of (x1, y1, x2, y2) \<Rightarrow> (uint x1, uint y1, uint x2, uint y2))"


text \<open>
  \<^verbatim>\<open>_load_coco_annotation\<close>. The attribute \<^verbatim>\<open>image_label\<close> is None throughout, and the
  label vector built from it is not returned, so it is left out.
\<close>

definition load_coco_annotation :: "dataset \<Rightarrow> int \<Rightarrow> error + image_record" where
  "load_coco_annotation ds index =
     (case loadImgs (COCO ds) index of
        None \<Rightarrow> Inl KeyError
      | Some im_ann \<Rightarrow>
          (let w = img_width im_ann;
               h = img_height im_ann;
               objs = sanitize w h (imgToAnns (COCO ds) index)
           in case coco_cat_id_to_class_ind ds of
                Inl e \<Rightarrow> Inl e
              | Inr table \<Rightarrow>
                  (case mapM (fill_row table (length (classes ds))) objs of
                     Inl e \<Rightarrow> Inl e
                   | Inr rows \<Rightarrow>
                       (if validate_boxes (map fst rows) w h
                        then Inr \<lparr>width = w,
                                 height = h,
                                 boxes = map fst rows,
                                 gt_classes = map (\<lambda>r. fst (snd r)) rows,
                                 gt_overlaps = map (\<lambda>r. snd (snd (snd r))) rows,
                                 flipped = False,
                                 seg_areas = map (\<lambda>r. fst (snd (snd r))) rows\<rparr>
                        else Inl AssertionError))))"

section \<open>The ground-truth roidb and its cache\<close>

text \<open>
  \<^verbatim>\<open>gt_roidb\<close>. The disk is a map from the path of a cache file to the list of records
  pickled there; \<open>cache_path\<close> is the directory the base class gives. The result is what the
  call returns, with the disk after it.
\<close>

type_synonym disk = "string \<rightharpoonup> image_record list"

definition cache_file_of :: "string \<Rightarrow> dataset \<Rightarrow> string" where
  "cache_file_of cache_path ds = osp_join cache_path [name ds @ ''_gt_roidb.pkl'']"

definition gt_roidb :: "string \<Rightarrow> disk \<Rightarrow> dataset \<Rightarrow> (error + image_record list) \<times> disk" where
  "gt_roidb cache_path d ds =
     (let cache_file = cache_file_of cache_path ds
      in case (d cache_file, use_cache ds) of
           (Some roidb, True) \<Rightarrow> (Inr roidb, d)
         | _ \<Rightarrow>
             (case mapM (load_coco_annotation ds) (image_index ds) of
                Inl e \<Rightarrow> (Inl e, d)
              | Inr gt \<Rightarrow> (Inr gt, d(cache_file \<mapsto> gt))))"

section \<open>Horizontal flipping\<close>

text \<open>
  \<^verbatim>\<open>append_flipped_images\<close>. The arithmetic \<^verbatim>\<open>widths[i] - oldx2 - 1\<close> is stored into the
  uint16 array, so it is the subtraction of 16-bit words. \<^verbatim>\<open>self.roidb\<close> is the list held
  by the base class; it is passed in and returned, with what was appended before a failure.
\<close>

definition flip_box :: "int \<Rightarrow> box16 \<Rightarrow> box16" where
  "flip_box w b = (case b of (oldx1, y1, oldx2, y2) \<Rightarrow>
     (word_of_int w - oldx2 - 1, y1, word_of_int w - oldx1 - 1, y2))"

definition flip_entry :: "int \<Rightarrow> image_record \<Rightarrow> image_record" where
  "flip_entry w r =
     \<lparr>width = w,
      height = height r,
      boxes = map (flip_box w) (boxes r),
      gt_classes = gt_classes r,
      gt_overlaps = gt_overlaps r,
      flipped = True,
      seg_areas = seg_areas r\<rparr>"

fun flip_loop :: "int list \<Rightarrow> nat list \<Rightarrow> image_record list \<Rightarrow> error option \<times> image_record list" where
  "flip_loop widths [] roidb = (None, roidb)"
| "flip_loop widths (i # is) roidb =
     (if length roidb \<le> i \<or> length widths \<le> i then (Some IndexError, roidb)
      else (let entry = flip_entry (widths ! i) (roidb ! i)
            in if list_all (\<lambda>(x1, y1, x2, y2). x2 \<ge> x1) (boxes entry)
               then flip_loop widths is (roidb @ [entry])
               else (Some AssertionError, roidb)))"

definition get_widths :: "image_record list \<Rightarrow> int list" where
  "get_widths roidb = map width roidb"

definition append_flipped_images ::
  "dataset \<Rightarrow> image_record list \<Rightarrow> (error + unit) \<times> dataset \<times> image_record list"
where
  "append_flipped_images ds roidb =
     (let num_images = length (image_index ds);
          widths = get_widths roidb
      in case flip_loop widths [0..<num_images] roidb of
           (Some e, roidb') \<Rightarrow> (Inl e, ds, roidb')
         | (None, roidb') \<Rightarrow>
             (Inr (), ds\<lparr>image_index := image_index ds @ image_index ds\<rparr>, roidb'))"

text \<open>
  The invariant of a record that flipping relies on: in every box \<open>x1 \<le> x2 \<le> width - 1\<close>
  (\<open>0 \<le> x1\<close> holds of every unsigned number).
\<close>

definition record_ok :: "image_record \<Rightarrow> bool" where
  "record_ok r = list_all (\<lambda>(x1, y1, x2, y2). uint x1 \<le> uint x2 \<and> uint x2 \<le> width r - 1) (boxes r)"

section \<open>Detection results\<close>

text \<open>
  A detection row is \<open>(x1, y1, x2, y2, score)\<close>. The number type is left open: the code
  computes with floats, and the definitions use nothing but its \<open>+\<close>, \<open>-\<close> and \<open>1\<close>.
\<close>

type_synonym 'a det = "'a \<times> 'a \<times> 'a \<times> 'a \<times> 'a"

record 'a coco_result =
  image_id :: int
  res_category_id :: int
  res_bbox :: "'a list"
  score :: 'a

definition result_of :: "int \<Rightarrow> int \<Rightarrow> ('a::{plus,minus,one}) det \<Rightarrow> 'a coco_result" where
  "result_of index cat_id det = (case det of (x1, y1, x2, y2, sc) \<Rightarrow>
     \<lparr>image_id = index,
      res_category_id = cat_id,
      res_bbox = [x1, y1, x2 - x1 + 1, y2 - y1 + 1],
      score = sc\<rparr>)"

text \<open>
  \<^verbatim>\<open>_coco_results_one_category\<close>: the images in index order, \<^verbatim>\<open>boxes[im_ind]\<close> read by
  position (IndexError when the list is too short). The test \<^verbatim>\<open>dets == []\<close> only skips
  what contributes no row.
\<close>

fun coco_results_one_category ::
  "int list \<Rightarrow> ('a::{plus,minus,one}) det list list \<Rightarrow> int \<Rightarrow> error + 'a coco_result list"
where
  "coco_results_one_category [] bs cat_id = Inr []"
| "coco_results_one_category (index # rest) [] cat_id = Inl IndexError"
| "coco_results_one_category (index # rest) (dets # bs) cat_id =
     (case coco_results_one_category rest bs cat_id of
        Inl e \<Rightarrow> Inl e
      | Inr rs \<Rightarrow> Inr (map (result_of index cat_id) dets @ rs))"

text \<open>
  \<^verbatim>\<open>_write_coco_results_file\<close>: one step of its loop over \<^verbatim>\<open>enumerate(self.classes)\<close>,
  then the loop and the write of the JSON file.
\<close>

definition results_of_class ::
  "dataset \<Rightarrow> ('a::{plus,minus,one}) det list list list \<Rightarrow> nat \<times> string \<Rightarrow> error + 'a coco_result list"
where
  "results_of_class ds all_boxes ic =
     (case ic of (cls_ind, cls) \<Rightarrow>
        (if cls = ''__background__'' then Inr []
         else (case dict_get (class_to_coco_cat_id ds) cls of
                 Inl e \<Rightarrow> Inl e
               | Inr coco_cat_id \<Rightarrow>
                   (if cls_ind < length all_boxes
                    then coco_results_one_category (image_index ds) (all_boxes ! cls_ind) coco_cat_id
                    else Inl IndexError))))"

definition collect_results ::
  "dataset \<Rightarrow> ('a::{plus,minus,one}) det list list list \<Rightarrow> error + 'a coco_result list"
where
  "collect_results ds all_boxes =
     (case mapM (results_of_class ds all_boxes) (enumerate 0 (classes ds)) of
        Inl e \<Rightarrow> Inl e
      | Inr rss \<Rightarrow> Inr (concat rss))"

text \<open>
  The flat list the specification describes for one category: for each image in index
  order, one entry for each of its rows, in order.
\<close>

definition category_results ::
  "int list \<Rightarrow> ('a::{plus,minus,one}) det list list \<Rightarrow> int \<Rightarrow> 'a coco_result list" where
  "category_results idx bs cat_id =
     concat (map (\<lambda>(index, dets). map (result_of index cat_id) dets) (zip idx bs))"

text \<open>
  The category id that stands for a class name: the id of the category of that name, of
  the last one when several categories share the name. The whole flat list: the classes in
  order, without those called \<^verbatim>\<open>__background__\<close>, each with its category id.
\<close>

definition cat_id_of :: "(int \<times> string) list \<Rightarrow> string \<Rightarrow> int" where
  "cat_id_of cs cls = fst (last (filter (\<lambda>c. snd c = cls) cs))"

definition flat_results ::
  "dataset \<Rightarrow> ('a::{plus,minus,one}) det list list list \<Rightarrow> 'a coco_result list" where
  "flat_results ds all_boxes =
     concat (map (\<lambda>c. category_results (image_index ds) (all_boxes ! c)
                        (cat_id_of (cats (COCO ds)) (classes ds ! c)))
               (filter (\<lambda>c. classes ds ! c \<noteq> ''__background__'') [0..<length (classes ds)]))"

text \<open>
  The detections have the shape the code reads: a list for every class that is not skipped,
  with an entry for every image of the index.
\<close>

definition boxes_shaped :: "dataset \<Rightarrow> 'a det list list list \<Rightarrow> bool" where
  "boxes_shaped ds all_boxes =
     list_all (\<lambda>c. classes ds ! c = ''__background__'' \<or>
                  (c < length all_boxes \<and> length (image_index ds) \<le> length (all_boxes ! c)))
       [0..<length (classes ds)]"

type_synonym 'a results_disk = "string \<rightharpoonup> 'a coco_result list"

definition write_coco_results_file ::
  "'a results_disk \<Rightarrow> dataset \<Rightarrow> ('a::{plus,minus,one}) det list list list \<Rightarrow> string
     \<Rightarrow> (error + unit) \<times> 'a results_disk"
where
  "write_coco_results_file d ds all_boxes res_file =
     (case collect_results ds all_boxes of
        Inl e \<Rightarrow> (Inl e, d)
      | Inr results \<Rightarrow> (Inr (), d(res_file \<mapsto> results)))"

text \<open>
  \<^verbatim>\<open>evaluate_detections\<close>. \<open>uuid4\<close> is the token \<^verbatim>\<open>str(uuid.uuid4())\<close> draws, and
  \<open>do_detection_eval\<close> stands for \<^verbatim>\<open>_do_detection_eval\<close>, which hands the file to the
  external evaluator. The file name is built left to right, as Python evaluates the sum.
\<close>

definition evaluate_detections ::
  "string \<Rightarrow> (string \<Rightarrow> string \<Rightarrow> error + unit) \<Rightarrow> 'a results_disk \<Rightarrow> dataset
     \<Rightarrow> ('a::{plus,minus,one}) det list list list \<Rightarrow> string \<Rightarrow> (error + unit) \<times> 'a results_disk"
where
  "evaluate_detections uuid4 do_detection_eval d ds all_boxes output_dir =
     (case str_add (''detections_'' @ image_set ds) (year ds) of
        Inl e \<Rightarrow> (Inl e, d)
      | Inr s \<Rightarrow>
          (let res_file = osp_join output_dir [s @ ''_results''];
               res_file = (if use_salt (config ds) then res_file @ ''_'' @ uuid4 else res_file);
               res_file = res_file @ ''.json''
           in case write_coco_results_file d ds all_boxes res_file of
                (Inl e, d') \<Rightarrow> (Inl e, d')
              | (Inr u, d') \<Rightarrow>
                  (case do_detection_eval res_file output_dir of
                     Inl e \<Rightarrow> (Inl e, d')
                   | Inr u \<Rightarrow>
                       (if cleanup (config ds) then (Inr (), d'(res_file := None))
                        else (Inr (), d')))))"

section \<open>The states of the adapter\<close>

text \<open>
  The data sets the class can hold: what the constructor returns, and what
  \<^verbatim>\<open>competition_mode\<close> and \<^verbatim>\<open>append_flipped_images\<close> make of such a data set.
\<close>

inductive adapter_state :: "dataset \<Rightarrow> bool" where
  by_init: "init files DATA_DIR iset dkit apath = Inr ds \<Longrightarrow> adapter_state ds"
| by_competition_mode: "adapter_state ds \<Longrightarrow> adapter_state (competition_mode on ds)"
| by_append_flipped_images:
    "adapter_state ds \<Longrightarrow> append_flipped_images ds roidb = (res, ds', roidb') \<Longrightarrow>
     adapter_state ds'"

section \<open>Small data sets\<close>

text \<open>
  One image, number 93, of 100 by 80 pixels with three annotations of the only category:
  a plain box, a crowd box that starts left of the image, and a box that lies right of it.
\<close>

definition pedestrian_coco :: coco where
  "pedestrian_coco =
     \<lparr>cats = [(1, ''pedestrian'')],
      getImgIds = [93],
      loadImgs = [93 \<mapsto> \<lparr>img_width = 100, img_height = 80\<rparr>],
      imgToAnns = (\<lambda>i. if i = 93
         then [\<lparr>bbox = (10, 10, 41, 41), area = 1681, category_id = 1, iscrowd = False\<rparr>,
               \<lparr>bbox = (- 5, 70, 20, 30), area = 600, category_id = 1, iscrowd = True\<rparr>,
               \<lparr>bbox = (120, 10, 5, 5), area = 25, category_id = 1, iscrowd = False\<rparr>]
         else [])\<rparr>"

definition pedestrian_files :: "string \<rightharpoonup> coco" where
  "pedestrian_files =
     [''data/WiderPedestrian/annotations/WiderPedestrian_val.json'' \<mapsto> pedestrian_coco]"

definition pedestrian_ds :: dataset where
  "pedestrian_ds =
     \<lparr>name = ''WiderPedestrian_val'',
      config = \<lparr>use_salt = True, cleanup = True\<rparr>,
      year = PyInt 2018,
      image_set = ''val'',
      devkit_path = ''data/WiderPedestrian'',
      use_cache = True,
      ann_path = ''annotations'',
      data_path = ''data/WiderPedestrian'',
      COCO = pedestrian_coco,
      classes = [''__background__'', ''pedestrian''],
      class_to_ind = [(''__background__'', 0), (''pedestrian'', 1)],
      class_to_coco_cat_id = [(''pedestrian'', 1)],
      image_index = [93],
      data_name = ''val''\<rparr>"

text \<open>The record the conversion yields for image 93: the third annotation is dropped.\<close>

definition pedestrian_record :: image_record where
  "pedestrian_record =
     \<lparr>width = 100, height = 80,
      boxes = [(10, 10, 50, 50), (0, 70, 19, 79)],
      gt_classes = [1, 1],
      gt_overlaps = [[0, 1], [- 1, - 1]],
      flipped = False,
      seg_areas = [F32 1681, F32 600]\<rparr>"

text \<open>
  A second data set: one image of 70000 by 80 pixels with one annotation, and the record
  the conversion yields for it. The box lies inside the image.
\<close>

definition wide_coco :: coco where
  "wide_coco =
     \<lparr>cats = [(1, ''pedestrian'')],
      getImgIds = [7],
      loadImgs = [7 \<mapsto> \<lparr>img_width = 70000, img_height = 80\<rparr>],
      imgToAnns = (\<lambda>i. if i = 7
         then [\<lparr>bbox = (0, 10, 5001, 41), area = 200000, category_id = 1, iscrowd = False\<rparr>]
         else [])\<rparr>"

definition wide_ds :: dataset where
  "wide_ds = pedestrian_ds\<lparr>COCO := wide_coco, image_index := [7]\<rparr>"

definition wide_record :: image_record where
  "wide_record =
     \<lparr>width = 70000, height = 80,
      boxes = [(0, 10, 5000, 50)],
      gt_classes = [1],
      gt_overlaps = [[0, 1]],
      flipped = False,
      seg_areas = [F32 200000]\<rparr>"

text \<open>
  A data set with two categories whose ids, 3 and 7, are not their class indices: one image
  with a rider, a crowd of pedestrians that starts left of the image, and a pedestrian that
  lies right of it.
\<close>

definition street_coco :: coco where
  "street_coco =
     \<lparr>cats = [(3, ''pedestrian''), (7, ''rider'')],
      getImgIds = [93],
      loadImgs = [93 \<mapsto> \<lparr>img_width = 100, img_height = 80\<rparr>],
      imgToAnns = (\<lambda>i. if i = 93
         then [\<lparr>bbox = (10, 10, 41, 41), area = 1681, category_id = 7, iscrowd = False\<rparr>,
               \<lparr>bbox = (- 5, 70, 20, 30), area = 600, category_id = 3, iscrowd = True\<rparr>,
               \<lparr>bbox = (120, 10, 5, 5), area = 25, category_id = 3, iscrowd = False\<rparr>]
         else [])\<rparr>"

definition street_ds :: dataset where
  "street_ds =
     \<lparr>name = ''WiderPedestrian_val'',
      config = \<lparr>use_salt = True, cleanup = True\<rparr>,
      year = PyInt 2018,
      image_set = ''val'',
      devkit_path = ''data/WiderPedestrian'',
      use_cache = True,
      ann_path = ''annotations'',
      data_path = ''data/WiderPedestrian'',
      COCO = street_coco,
      classes = [''__background__'', ''pedestrian'', ''rider''],
      class_to_ind = [(''__background__'', 0), (''pedestrian'', 1), (''rider'', 2)],
      class_to_coco_cat_id = [(''pedestrian'', 3), (''rider'', 7)],
      image_index = [93],
      data_name = ''val''\<rparr>"


text \<open>
  Two images of 70000 by 80 pixels, each with one box that lies inside the image: one
  that spans the whole width, and one that reaches from column 10000 to the right edge.
\<close>

definition broad_coco :: coco where
  "broad_coco =
     \<lparr>cats = [(1, ''pedestrian'')],
      getImgIds = [7, 8],
      loadImgs = [7 \<mapsto> \<lparr>img_width = 70000, img_height = 80\<rparr>,
                  8 \<mapsto> \<lparr>img_width = 70000, img_height = 80\<rparr>],
      imgToAnns = (\<lambda>i.
         if i = 7
         then [\<lparr>bbox = (0, 10, 70000, 41), area = 2870000, category_id = 1, iscrowd = False\<rparr>]
         else if i = 8
         then [\<lparr>bbox = (10000, 10, 60000, 41), area = 2460000, category_id = 1, iscrowd = False\<rparr>]
         else [])\<rparr>"

definition broad_ds :: dataset where
  "broad_ds = pedestrian_ds\<lparr>COCO := broad_coco, image_index := [7, 8]\<rparr>"

text \<open>A data set in which a category is itself called \<^verbatim>\<open>__background__\<close>.\<close>

definition odd_coco :: coco where
  "odd_coco =
     \<lparr>cats = [(1, ''pedestrian''), (5, ''__background__'')],
      getImgIds = [93],
      loadImgs = [93 \<mapsto> \<lparr>img_width = 100, img_height = 80\<rparr>],
      imgToAnns = (\<lambda>i. [])\<rparr>"

definition odd_ds :: dataset where
  "odd_ds =
     \<lparr>name = ''WiderPedestrian_val'',
      config = \<lparr>use_salt = True, cleanup = True\<rparr>,
      year = PyInt 2018,
      image_set = ''val'',
      devkit_path = ''data/WiderPedestrian'',
      use_cache = True,
      ann_path = ''annotations'',
      data_path = ''data/WiderPedestrian'',
      COCO = odd_coco,
      classes = [''__background__'', ''pedestrian'', ''__background__''],
      class_to_ind = [(''__background__'', 0), (''pedestrian'', 1), (''__background__'', 2)],
      class_to_coco_cat_id = [(''pedestrian'', 1), (''__background__'', 5)],
      image_index = [93],
      data_name = ''val''\<rparr>"

section \<open>Properties of construction and configuration\<close>

lemma init_pedestrian:
  "init pedestrian_files ''data'' ''val'' None None = Inr pedestrian_ds"
  by (simp add: init_def pedestrian_files_def pedestrian_ds_def get_default_path_def
      get_ann_file_def osp_join_def join_step_def competition_mode_def pedestrian_coco_def
      Let_def)

lemma init_fields:
  assumes "init files DATA_DIR iset dkit apath = Inr ds"
  shows "year ds = PyInt 2018" and "use_cache ds = (apath = None)"
    and "config ds = \<lparr>use_salt = True, cleanup = True\<rparr>"
    and "image_set ds = iset" and "name ds = ''WiderPedestrian_'' @ iset"
    and "classes ds = ''__background__'' # map snd (cats (COCO ds))"
    and "class_to_ind ds = zip (classes ds) [0..<length (classes ds)]"
    and "class_to_coco_cat_id ds = zip (map snd (cats (COCO ds))) (map fst (cats (COCO ds)))"
    and "image_index ds = getImgIds (COCO ds)"
  using assms
  by (auto simp: init_def Let_def competition_mode_def split: option.splits)

text \<open>
  What holds of every state of the adapter: the name and the class table are as the
  constructor made them.
\<close>

lemma adapter_state_inv:
  "adapter_state ds \<Longrightarrow>
     name ds = ''WiderPedestrian_'' @ image_set ds \<and>
     classes ds = ''__background__'' # map snd (cats (COCO ds)) \<and>
     class_to_ind ds = zip (classes ds) [0..<length (classes ds)] \<and>
     class_to_coco_cat_id ds = zip (map snd (cats (COCO ds))) (map fst (cats (COCO ds)))"
proof (induction rule: adapter_state.induct)
  case (by_init files DATA_DIR iset dkit apath ds)
  then show ?case
    using init_fields [OF by_init] by simp
next
  case (by_competition_mode ds on)
  then show ?case
    by (simp add: competition_mode_def)
next
  case (by_append_flipped_images ds roidb res ds' roidb')
  then have "ds' = ds \<or> ds' = ds\<lparr>image_index := image_index ds @ image_index ds\<rparr>"
    by (auto simp: append_flipped_images_def Let_def split: prod.splits option.splits)
  with by_append_flipped_images.IH show ?case
    by auto
qed

lemma adapter_state_fields:
  assumes "adapter_state ds"
  shows "name ds = ''WiderPedestrian_'' @ image_set ds"
    and "classes ds = ''__background__'' # map snd (cats (COCO ds))"
    and "class_to_ind ds = zip (classes ds) [0..<length (classes ds)]"
    and "class_to_coco_cat_id ds = zip (map snd (cats (COCO ds))) (map fst (cats (COCO ds)))"
  using adapter_state_inv [OF assms] by simp_all

text \<open>
  Claim C7. \<^verbatim>\<open>competition_mode(True)\<close> clears both flags and \<^verbatim>\<open>competition_mode(False)\<close>
  sets both, whatever they were; switching the mode on and then off leaves the data set as
  it was except that the configuration is \<open>use_salt = True, cleanup = True\<close>.
\<close>

theorem competition_mode_flags:
  "config (competition_mode True ds) = \<lparr>use_salt = False, cleanup = False\<rparr> \<and>
   config (competition_mode False ds) = \<lparr>use_salt = True, cleanup = True\<rparr> \<and>
   competition_mode False (competition_mode True ds) =
     ds\<lparr>config := \<lparr>use_salt = True, cleanup = True\<rparr>\<rparr>"
  by (simp add: competition_mode_def)

section \<open>Properties of the evaluation driver\<close>

text \<open>
  The constructor stores the year as the integer 2018, so the sum that builds the name of
  the results file fails before anything is written.
\<close>

lemma evaluate_detections_int_year:
  "year ds = PyInt y \<Longrightarrow>
   evaluate_detections uuid4 ev d ds all_boxes output_dir = (Inl TypeError, d)"
  by (simp add: evaluate_detections_def str_add_def)

text \<open>
  With a year that is a string the driver does what the specification says: the file is
  \<^verbatim>\<open>detections_<imageSet><year>_results\<close>, with the token when \<open>use_salt\<close> is set, and
  it is gone afterwards exactly when \<open>cleanup\<close> is set.
\<close>

lemma evaluate_detections_str_year:
  assumes "year ds = PyStr y" and "collect_results ds all_boxes = Inr rs"
    and "ev = (\<lambda>res_file out. Inr ())"
  shows "evaluate_detections uuid4 ev d ds all_boxes output_dir =
     (let stem = osp_join output_dir [''detections_'' @ image_set ds @ y @ ''_results''];
          res_file = (if use_salt (config ds) then stem @ ''_'' @ uuid4 else stem) @ ''.json''
      in (Inr (), if cleanup (config ds) then (d(res_file \<mapsto> rs))(res_file := None)
                  else d(res_file \<mapsto> rs)))"
  using assms
  by (simp add: evaluate_detections_def str_add_def write_coco_results_file_def Let_def)

text \<open>
  Claim C6. On the data set that \<^verbatim>\<open>__init__\<close> builds, \<^verbatim>\<open>evaluate_detections\<close> raises
  TypeError at \<^verbatim>\<open>'detections_' + self._image_set + self._year\<close> and leaves the disk
  untouched: no results file is written, with or without the token, and none is deleted.
\<close>

theorem evaluate_detections_type_error:
  "init pedestrian_files ''data'' ''val'' None None = Inr pedestrian_ds \<and>
   evaluate_detections ''0f8fad5b'' (\<lambda>res_file output_dir. Inr ()) Map.empty pedestrian_ds
     ([[], [[(10, 10, 20, 30, 9 / 10)]]] :: rat det list list list) ''output''
     = (Inl TypeError, Map.empty)"
  by (simp add: init_pedestrian evaluate_detections_def str_add_def pedestrian_ds_def)

section \<open>Areas as float32\<close>

text \<open>An integer below \<open>2 ^ 24\<close> in absolute value is stored as it is.\<close>

lemma bitlen_le: "m < 2 ^ p \<Longrightarrow> bitlen m \<le> p"
proof (induction m arbitrary: p rule: bitlen.induct)
  case (1 n)
  show ?case
  proof (cases "n = 0")
    case True
    then show ?thesis by (simp add: bitlen.simps)
  next
    case False
    with "1.prems" obtain q where q: "p = Suc q"
      by (cases p) auto
    with "1.prems" have "n div 2 < 2 ^ q"
      by auto
    with 1 False have "bitlen (n div 2) \<le> q"
      by simp
    with False q show ?thesis
      by (subst bitlen.simps) simp
  qed
qed

lemma round_bits_small: "m < 2 ^ p \<Longrightarrow> round_bits p m = m"
  by (simp add: round_bits_def bitlen_le)

lemma store_float32_small:
  assumes "\<bar>a\<bar> < 2 ^ 24"
  shows "store_float32 a = Inr (F32 a)"
proof -
  have m: "nat \<bar>a\<bar> < 2 ^ 24"
    using assms by (simp add: nat_less_iff)
  then have "nat \<bar>a\<bar> < 2 ^ 53"
    by (rule less_trans) simp
  then have d: "round_bits 53 (nat \<bar>a\<bar>) = nat \<bar>a\<bar>"
    by (rule round_bits_small)
  have f: "round_bits 24 (nat \<bar>a\<bar>) = nat \<bar>a\<bar>"
    using m by (rule round_bits_small)
  have "nat \<bar>a\<bar> < 2 ^ 1024" "nat \<bar>a\<bar> < 2 ^ 128"
    using m by (auto intro: less_trans)
  then show ?thesis
    by (simp add: store_float32_def d f Let_def not_le [symmetric])
qed

section \<open>The small data set, converted\<close>

lemma table_pedestrian: "coco_cat_id_to_class_ind pedestrian_ds = Inr [(1, 1)]"
  by (simp add: coco_cat_id_to_class_ind_def pedestrian_ds_def dict_get_def)

lemma sanitize_pedestrian:
  "sanitize 100 80 (imgToAnns pedestrian_coco 93) =
     [(\<lparr>bbox = (10, 10, 41, 41), area = 1681, category_id = 1, iscrowd = False\<rparr>, (10, 10, 50, 50)),
      (\<lparr>bbox = (- 5, 70, 20, 30), area = 600, category_id = 1, iscrowd = True\<rparr>, (0, 70, 19, 79))]"
  by (simp add: pedestrian_coco_def clean_bbox_def int64_add_def)

lemma load_pedestrian: "load_coco_annotation pedestrian_ds 93 = Inr pedestrian_record"
proof -
  have c: "COCO pedestrian_ds = pedestrian_coco" "classes pedestrian_ds = [''__background__'', ''pedestrian'']"
    by (simp_all add: pedestrian_ds_def)
  have l: "loadImgs pedestrian_coco 93 = Some \<lparr>img_width = 100, img_height = 80\<rparr>"
    by (simp add: pedestrian_coco_def)
  show ?thesis
    by (simp add: load_coco_annotation_def c l sanitize_pedestrian table_pedestrian
        fill_row_def dict_get_def overlap_row_def store_box_def validate_boxes_def
        store_float32_small pedestrian_record_def)
qed

lemma cache_file_pedestrian:
  "cache_file_of ''data/cache'' pedestrian_ds = ''data/cache/WiderPedestrian_val_gt_roidb.pkl''"
  by (simp add: cache_file_of_def osp_join_def join_step_def pedestrian_ds_def)

section \<open>Properties of the cache protocol\<close>

lemma mapM_Inr_iff:
  "mapM f xs = Inr ys \<longleftrightarrow>
     length ys = length xs \<and> (\<forall>i < length xs. f (xs ! i) = Inr (ys ! i))"
proof (induction xs arbitrary: ys)
  case Nil
  then show ?case by auto
next
  case (Cons x xs)
  show ?case
  proof (cases ys)
    case Nil
    then show ?thesis by (auto split: sum.splits)
  next
    case (Cons y ys')
    then show ?thesis
      using Cons.IH [of ys']
      by (auto simp: nth_Cons less_Suc_eq_0_disj split: sum.splits nat.splits)
  qed
qed

lemma mapM_Inl_iff:
  "(\<exists>e. mapM f xs = Inl e) \<longleftrightarrow> (\<exists>x \<in> set xs. \<exists>e. f x = Inl e)"
  by (induction xs) (auto split: sum.splits)

lemma mapM_all_Inr:
  "(\<And>x. x \<in> set xs \<Longrightarrow> f x = Inr (g x)) \<Longrightarrow> mapM f xs = Inr (map g xs)"
  by (induction xs) auto

lemma gt_roidb_hit:
  "d (cache_file_of cache_path ds) = Some cached \<Longrightarrow> use_cache ds \<Longrightarrow>
   gt_roidb cache_path d ds = (Inr cached, d)"
  by (simp add: gt_roidb_def)

lemma gt_roidb_miss:
  "d (cache_file_of cache_path ds) = None \<or> \<not> use_cache ds \<Longrightarrow>
   gt_roidb cache_path d ds =
     (case mapM (load_coco_annotation ds) (image_index ds) of
        Inl e \<Rightarrow> (Inl e, d)
      | Inr gt \<Rightarrow> (Inr gt, d(cache_file_of cache_path ds \<mapsto> gt)))"
  by (auto simp: gt_roidb_def Let_def split: option.splits bool.splits)

lemma gt_roidb_again:
  assumes "gt_roidb cache_path d ds = (Inr gt, d')"
  shows "gt_roidb cache_path d' ds = (Inr gt, d')"
proof (cases "d (cache_file_of cache_path ds) \<noteq> None \<and> use_cache ds")
  case True
  then show ?thesis using assms by (auto simp: gt_roidb_hit)
next
  case False
  then have miss: "d (cache_file_of cache_path ds) = None \<or> \<not> use_cache ds" by auto
  from assms miss have m: "mapM (load_coco_annotation ds) (image_index ds) = Inr gt"
    and d': "d' = d(cache_file_of cache_path ds \<mapsto> gt)"
    using gt_roidb_miss [of d cache_path ds] by (auto split: sum.splits)
  show ?thesis
  proof (cases "use_cache ds")
    case True
    then show ?thesis by (simp add: gt_roidb_hit d')
  next
    case False
    then show ?thesis by (simp add: gt_roidb_miss m d')
  qed
qed

text \<open>
  The cache file is named after the data set: the name cannot start with a slash, so the
  file lies in the cache directory, and data sets of different names have different files.
\<close>

lemma join_step_relative:
  "b \<noteq> [] \<Longrightarrow> hd b \<noteq> CHR ''/'' \<Longrightarrow>
   join_step path b = (if path = [] \<or> last path = CHR ''/'' then path @ b else path @ ''/'' @ b)"
  by (simp add: join_step_def)

lemma join_step_inject:
  assumes "join_step path b = join_step path b'"
    and "b \<noteq> []" "hd b \<noteq> CHR ''/''" "b' \<noteq> []" "hd b' \<noteq> CHR ''/''"
  shows "b = b'"
  using assms by (auto simp: join_step_relative split: if_splits)

lemma cache_file_of_adapter_state:
  assumes "adapter_state ds"
  shows "cache_file_of cache_path ds =
     join_step cache_path (''WiderPedestrian_'' @ image_set ds @ ''_gt_roidb.pkl'')"
  using adapter_state_fields(1) [OF assms] by (simp add: cache_file_of_def osp_join_def)

lemma cache_file_of_inject:
  assumes "adapter_state ds" and "adapter_state ds'"
    and "cache_file_of cache_path ds' = cache_file_of cache_path ds"
  shows "name ds' = name ds"
proof -
  have "join_step cache_path (''WiderPedestrian_'' @ image_set ds' @ ''_gt_roidb.pkl'') =
      join_step cache_path (''WiderPedestrian_'' @ image_set ds @ ''_gt_roidb.pkl'')"
    using assms by (simp add: cache_file_of_adapter_state)
  then have "''WiderPedestrian_'' @ image_set ds' @ ''_gt_roidb.pkl'' =
      ''WiderPedestrian_'' @ image_set ds @ ''_gt_roidb.pkl''"
    by (rule join_step_inject) simp_all
  then show ?thesis
    using adapter_state_fields(1) [OF assms(1)] adapter_state_fields(1) [OF assms(2)] by simp
qed

text \<open>
  Claim C4. The cache file is \<^verbatim>\<open>os.path.join(cache_path, name + '_gt_roidb.pkl')\<close>; for a
  state of the adapter the name is \<^verbatim>\<open>WiderPedestrian_\<close> followed by the image set, the
  file lies in the cache directory, and a data set of another name has another file.
  When the cache file of the data set exists and caching is enabled,
  \<^verbatim>\<open>gt_roidb\<close> returns what the file holds and leaves the disk as it is. Otherwise it
  converts every image identifier in index order; when every conversion succeeds it writes
  the list to the cache file and returns it, one record for each identifier in the order of
  the index, and when one fails the error comes back and nothing is written. A second call
  on the disk the first one left returns the same list and leaves that disk as it is.
\<close>

theorem gt_roidb_cache_protocol:
  "(d (cache_file_of cache_path ds) = Some cached \<and> use_cache ds \<longrightarrow>
      gt_roidb cache_path d ds = (Inr cached, d)) \<and>
   (d (cache_file_of cache_path ds) = None \<or> \<not> use_cache ds \<longrightarrow>
      (\<forall>gt. mapM (load_coco_annotation ds) (image_index ds) = Inr gt \<longrightarrow>
         gt_roidb cache_path d ds = (Inr gt, d(cache_file_of cache_path ds \<mapsto> gt)) \<and>
         length gt = length (image_index ds) \<and>
         (\<forall>i < length (image_index ds).
            load_coco_annotation ds (image_index ds ! i) = Inr (gt ! i))) \<and>
      (\<forall>e. mapM (load_coco_annotation ds) (image_index ds) = Inl e \<longrightarrow>
         gt_roidb cache_path d ds = (Inl e, d))) \<and>
   (\<forall>gt d'. gt_roidb cache_path d ds = (Inr gt, d') \<longrightarrow>
      gt_roidb cache_path d' ds = (Inr gt, d')) \<and>
   cache_file_of cache_path ds = osp_join cache_path [name ds @ ''_gt_roidb.pkl''] \<and>
   (adapter_state ds \<longrightarrow>
      name ds = ''WiderPedestrian_'' @ image_set ds \<and>
      (cache_path \<noteq> [] \<and> last cache_path \<noteq> CHR ''/'' \<longrightarrow>
         cache_file_of cache_path ds =
           cache_path @ ''/WiderPedestrian_'' @ image_set ds @ ''_gt_roidb.pkl'') \<and>
      (\<forall>ds'. adapter_state ds' \<and> name ds' \<noteq> name ds \<longrightarrow>
         cache_file_of cache_path ds' \<noteq> cache_file_of cache_path ds))"
proof (intro conjI impI allI)
  fix gt
  assume miss: "d (cache_file_of cache_path ds) = None \<or> \<not> use_cache ds"
    and m: "mapM (load_coco_annotation ds) (image_index ds) = Inr gt"
  show "gt_roidb cache_path d ds = (Inr gt, d(cache_file_of cache_path ds \<mapsto> gt))"
    using miss by (simp add: gt_roidb_miss m)
  from m show "length gt = length (image_index ds)"
    by (simp add: mapM_Inr_iff)
  fix i assume "i < length (image_index ds)"
  with m show "load_coco_annotation ds (image_index ds ! i) = Inr (gt ! i)"
    by (simp add: mapM_Inr_iff)
next
  fix e
  assume miss: "d (cache_file_of cache_path ds) = None \<or> \<not> use_cache ds"
    and m: "mapM (load_coco_annotation ds) (image_index ds) = Inl e"
  show "gt_roidb cache_path d ds = (Inl e, d)"
    using miss by (simp add: gt_roidb_miss m)
next
  show "cache_file_of cache_path ds = osp_join cache_path [name ds @ ''_gt_roidb.pkl'']"
    by (simp add: cache_file_of_def)
next
  assume "adapter_state ds"
  then show "name ds = ''WiderPedestrian_'' @ image_set ds"
    by (rule adapter_state_fields)
next
  assume a: "adapter_state ds" and "cache_path \<noteq> [] \<and> last cache_path \<noteq> CHR ''/''"
  then show "cache_file_of cache_path ds =
      cache_path @ ''/WiderPedestrian_'' @ image_set ds @ ''_gt_roidb.pkl''"
    by (simp add: cache_file_of_adapter_state join_step_relative)
next
  fix ds'
  assume "adapter_state ds" and "adapter_state ds' \<and> name ds' \<noteq> name ds"
  then show "cache_file_of cache_path ds' \<noteq> cache_file_of cache_path ds"
    using cache_file_of_inject [of ds ds' cache_path] by blast
qed (auto simp: gt_roidb_hit gt_roidb_again)

theorem gt_roidb_cache_protocol_witness:
  "adapter_state pedestrian_ds \<and>
   cache_file_of ''data/cache'' pedestrian_ds = ''data/cache/WiderPedestrian_val_gt_roidb.pkl'' \<and>
   gt_roidb ''data/cache'' [''data/cache/WiderPedestrian_val_gt_roidb.pkl'' \<mapsto> []] pedestrian_ds =
     (Inr [], [''data/cache/WiderPedestrian_val_gt_roidb.pkl'' \<mapsto> []]) \<and>
   gt_roidb ''data/cache'' Map.empty pedestrian_ds =
     (Inr [pedestrian_record], [''data/cache/WiderPedestrian_val_gt_roidb.pkl'' \<mapsto> [pedestrian_record]]) \<and>
   gt_roidb ''data/cache'' [''data/cache/WiderPedestrian_val_gt_roidb.pkl'' \<mapsto> [pedestrian_record]] pedestrian_ds =
     (Inr [pedestrian_record], [''data/cache/WiderPedestrian_val_gt_roidb.pkl'' \<mapsto> [pedestrian_record]])"
proof -
  have u: "use_cache pedestrian_ds" and i: "image_index pedestrian_ds = [93]"
    and s: "image_set pedestrian_ds = ''val''"
    by (simp_all add: pedestrian_ds_def)
  have m: "mapM (load_coco_annotation pedestrian_ds) (image_index pedestrian_ds) = Inr [pedestrian_record]"
    by (simp add: i load_pedestrian)
  have a: "adapter_state pedestrian_ds"
    using init_pedestrian by (rule adapter_state.by_init)
  note stale = gt_roidb_cache_protocol
    [of "[''data/cache/WiderPedestrian_val_gt_roidb.pkl'' \<mapsto> []]" "''data/cache''" pedestrian_ds "[]"]
  note fresh = gt_roidb_cache_protocol [of Map.empty "''data/cache''" pedestrian_ds]
  note named = fresh [THEN conjunct2, THEN conjunct2, THEN conjunct2, THEN conjunct2, THEN mp, OF a]
  have c: "cache_file_of ''data/cache'' pedestrian_ds =
      ''data/cache/WiderPedestrian_val_gt_roidb.pkl''"
    using named [THEN conjunct2, THEN conjunct1] by (simp add: s)
  have 1: "gt_roidb ''data/cache''
      [''data/cache/WiderPedestrian_val_gt_roidb.pkl'' \<mapsto> []] pedestrian_ds =
     (Inr [], [''data/cache/WiderPedestrian_val_gt_roidb.pkl'' \<mapsto> []])"
    using stale [THEN conjunct1] u by (simp add: c)
  have "gt_roidb ''data/cache'' Map.empty pedestrian_ds =
     (Inr [pedestrian_record], [cache_file_of ''data/cache'' pedestrian_ds \<mapsto> [pedestrian_record]])"
    using fresh [THEN conjunct2, THEN conjunct1] m by blast
  then have 2: "gt_roidb ''data/cache'' Map.empty pedestrian_ds =
     (Inr [pedestrian_record], [''data/cache/WiderPedestrian_val_gt_roidb.pkl'' \<mapsto> [pedestrian_record]])"
    by (simp only: c)
  have 3: "gt_roidb ''data/cache''
      [''data/cache/WiderPedestrian_val_gt_roidb.pkl'' \<mapsto> [pedestrian_record]] pedestrian_ds =
     (Inr [pedestrian_record], [''data/cache/WiderPedestrian_val_gt_roidb.pkl'' \<mapsto> [pedestrian_record]])"
    using fresh [THEN conjunct2, THEN conjunct2, THEN conjunct1] 2 by blast
  from a c 1 2 3 show ?thesis
    by (intro conjI)
qed

lemma load_coco_annotation_use_cache:
  "load_coco_annotation (ds\<lparr>use_cache := b\<rparr>) index = load_coco_annotation ds index"
proof -
  have "coco_cat_id_to_class_ind (ds\<lparr>use_cache := b\<rparr>) = coco_cat_id_to_class_ind ds"
    by (simp add: coco_cat_id_to_class_ind_def cong: sum.case_cong)
  then show ?thesis
    by (simp add: load_coco_annotation_def Let_def split: option.splits sum.splits)
qed

text \<open>
  Claim C9. The constructor enables the cache exactly when no annotation path is given. With
  an explicit path, \<^verbatim>\<open>gt_roidb\<close> does not look at what the disk holds: it converts the
  images, and when that succeeds it writes the cache file and returns the new list.
\<close>

theorem use_cache_iff_no_ann_path:
  assumes "init files DATA_DIR iset dkit apath = Inr ds"
  shows "(use_cache ds \<longleftrightarrow> apath = None) \<and>
         (apath \<noteq> None \<longrightarrow>
            gt_roidb cache_path d ds =
              (case mapM (load_coco_annotation ds) (image_index ds) of
                 Inl e \<Rightarrow> (Inl e, d)
               | Inr gt \<Rightarrow> (Inr gt, d(cache_file_of cache_path ds \<mapsto> gt))))"
  using init_fields(2) [OF assms] by (simp add: gt_roidb_miss)

theorem use_cache_iff_no_ann_path_witness:
  "init pedestrian_files ''data'' ''val'' None (Some ''annotations'') =
     Inr (pedestrian_ds\<lparr>use_cache := False\<rparr>) \<and>
   \<not> use_cache (pedestrian_ds\<lparr>use_cache := False\<rparr>) \<and>
   gt_roidb ''data/cache'' [''data/cache/WiderPedestrian_val_gt_roidb.pkl'' \<mapsto> []]
       (pedestrian_ds\<lparr>use_cache := False\<rparr>) =
     (Inr [pedestrian_record],
      [''data/cache/WiderPedestrian_val_gt_roidb.pkl'' \<mapsto> [pedestrian_record]])"
proof -
  have i: "init pedestrian_files ''data'' ''val'' None (Some ''annotations'') =
     Inr (pedestrian_ds\<lparr>use_cache := False\<rparr>)"
    by (simp add: init_def pedestrian_files_def pedestrian_ds_def get_default_path_def
      get_ann_file_def osp_join_def join_step_def competition_mode_def pedestrian_coco_def
      Let_def)
  have x: "image_index pedestrian_ds = [93]"
    by (simp add: pedestrian_ds_def)
  have m: "mapM (load_coco_annotation (pedestrian_ds\<lparr>use_cache := False\<rparr>))
      (image_index pedestrian_ds) = Inr [pedestrian_record]"
    by (simp only: x load_coco_annotation_use_cache load_pedestrian mapM.simps sum.case)
  have c: "cache_file_of ''data/cache'' (pedestrian_ds\<lparr>use_cache := False\<rparr>) =
      ''data/cache/WiderPedestrian_val_gt_roidb.pkl''"
    by (simp add: cache_file_of_def osp_join_def join_step_def pedestrian_ds_def)
  show ?thesis
    using use_cache_iff_no_ann_path [OF i, of "''data/cache''"
        "[''data/cache/WiderPedestrian_val_gt_roidb.pkl'' \<mapsto> []]"]
    by (simp add: i m c)
qed

section \<open>Properties of the conversion\<close>

lemma sanitize_filter:
  "sanitize w h objs = map (\<lambda>obj. (obj, clean_bbox w h obj)) (filter (kept w h) objs)"
  by (induction objs) (auto simp: kept_def split: prod.splits)

lemma clean_bbox_formula:
  "clean_bbox w h obj =
     (max 0 (fst (bbox obj)),
      max 0 (fst (snd (bbox obj))),
      min (w - 1) (int64_add (max 0 (fst (bbox obj))) (max 0 (fst (snd (snd (bbox obj))) - 1))),
      min (h - 1) (int64_add (max 0 (fst (snd (bbox obj)))) (max 0 (snd (snd (snd (bbox obj))) - 1))))"
  by (simp add: clean_bbox_def Let_def split: prod.splits)

text \<open>Within 64 bits the sum is the sum of the integers.\<close>

lemma int64_add_exact:
  "- (2 ^ 63) \<le> a + b \<Longrightarrow> a + b < 2 ^ 63 \<Longrightarrow> int64_add a b = a + b"
  by (simp add: int64_add_def)

lemma kept_in_image: "kept w h obj \<Longrightarrow> in_image w h (clean_bbox w h obj)"
  by (auto simp: kept_def in_image_def clean_bbox_formula min_less_iff_disj)

lemma sanitize_in_image: "ob \<in> set (sanitize w h objs) \<Longrightarrow> in_image w h (snd ob)"
  by (auto simp: sanitize_filter kept_in_image)

lemma uint_store: "0 \<le> k \<Longrightarrow> k < 65536 \<Longrightarrow> uint (word_of_int k :: 16 word) = k"
  by (simp add: uint_word_of_int_eq take_bit_int_eq_self)

lemma box_uint_store:
  "in_image w h b \<Longrightarrow> w \<le> 65536 \<Longrightarrow> h \<le> 65536 \<Longrightarrow> box_uint (store_box b) = b"
  by (auto simp: in_image_def box_uint_def store_box_def uint_store split: prod.splits)

lemma kept_box_uint:
  "kept w h obj \<Longrightarrow> w \<le> 65536 \<Longrightarrow> h \<le> 65536 \<Longrightarrow>
   box_uint (store_box (clean_bbox w h obj)) = clean_bbox w h obj"
  by (rule box_uint_store [OF kept_in_image])

lemma validate_boxes_iff:
  "validate_boxes bs w h \<longleftrightarrow> (\<forall>b \<in> set bs. in_image w h (box_uint b))"
  by (auto simp: validate_boxes_def in_image_def box_uint_def list_all_iff split: prod.splits)

lemma validate_sanitize:
  assumes "w \<le> 65536" and "h \<le> 65536"
  shows "validate_boxes (map (store_box \<circ> snd) (sanitize w h objs)) w h"
proof -
  have "in_image w h (box_uint (store_box (snd ob)))" if "ob \<in> set (sanitize w h objs)" for ob
    using sanitize_in_image [OF that] assms by (simp add: box_uint_store)
  then show ?thesis
    by (simp add: validate_boxes_iff)
qed

lemma fill_row_box: "fill_row table n ob = Inr row \<Longrightarrow> fst row = store_box (snd ob)"
  by (auto simp: fill_row_def split: sum.splits)

lemma mapM_fill_row_boxes:
  "mapM (fill_row table n) objs = Inr rows \<Longrightarrow> map fst rows = map (store_box \<circ> snd) objs"
  by (rule nth_equalityI) (auto simp: mapM_Inr_iff fill_row_box)

lemma load_coco_annotation_Inr:
  assumes "load_coco_annotation ds index = Inr r"
  obtains im table rows where
    "loadImgs (COCO ds) index = Some im"
    "coco_cat_id_to_class_ind ds = Inr table"
    "mapM (fill_row table (length (classes ds)))
       (sanitize (img_width im) (img_height im) (imgToAnns (COCO ds) index)) = Inr rows"
    "validate_boxes (map fst rows) (img_width im) (img_height im)"
    "r = \<lparr>width = img_width im, height = img_height im, boxes = map fst rows,
          gt_classes = map (\<lambda>r. fst (snd r)) rows,
          gt_overlaps = map (\<lambda>r. snd (snd (snd r))) rows,
          flipped = False,
          seg_areas = map (\<lambda>r. fst (snd (snd r))) rows\<rparr>"
  using assms
  by (auto simp: load_coco_annotation_def Let_def split: option.splits sum.splits if_splits)

text \<open>
  What the sanitising loop does, for every image: it keeps exactly the annotations that pass
  the test, in order, each with its clipped box, and a kept box lies in the image with its
  corners in order. What the record holds, for an image of at most 65536 by 65536 pixels:
  the clipped boxes themselves.
\<close>

lemma sanitize_clips:
  "sanitize w h objs = map (\<lambda>obj. (obj, clean_bbox w h obj)) (filter (kept w h) objs) \<and>
   clean_bbox w h \<lparr>bbox = (bx, by, bw, bh), area = a, category_id = c, iscrowd = k\<rparr> =
     (max 0 bx, max 0 by, min (w - 1) (int64_add (max 0 bx) (max 0 (bw - 1))),
      min (h - 1) (int64_add (max 0 by) (max 0 (bh - 1)))) \<and>
   (kept w h \<lparr>bbox = (bx, by, bw, bh), area = a, category_id = c, iscrowd = k\<rparr> \<longleftrightarrow>
      a > 0 \<and> min (w - 1) (int64_add (max 0 bx) (max 0 (bw - 1))) \<ge> max 0 bx \<and>
      min (h - 1) (int64_add (max 0 by) (max 0 (bh - 1))) \<ge> max 0 by) \<and>
   (\<forall>ob \<in> set (sanitize w h objs). in_image w h (snd ob))"
proof (intro conjI)
  show "sanitize w h objs = map (\<lambda>obj. (obj, clean_bbox w h obj)) (filter (kept w h) objs)"
    by (rule sanitize_filter)
  show cb: "clean_bbox w h \<lparr>bbox = (bx, by, bw, bh), area = a, category_id = c, iscrowd = k\<rparr> =
     (max 0 bx, max 0 by, min (w - 1) (int64_add (max 0 bx) (max 0 (bw - 1))),
      min (h - 1) (int64_add (max 0 by) (max 0 (bh - 1))))"
    by (simp add: clean_bbox_formula)
  show "kept w h \<lparr>bbox = (bx, by, bw, bh), area = a, category_id = c, iscrowd = k\<rparr> \<longleftrightarrow>
      a > 0 \<and> min (w - 1) (int64_add (max 0 bx) (max 0 (bw - 1))) \<ge> max 0 bx \<and>
      min (h - 1) (int64_add (max 0 by) (max 0 (bh - 1))) \<ge> max 0 by"
    unfolding kept_def cb by auto
  show "\<forall>ob \<in> set (sanitize w h objs). in_image w h (snd ob)"
    by (simp add: sanitize_in_image)
qed

lemma load_coco_annotation_narrow:
  assumes l: "load_coco_annotation ds index = Inr r"
  shows "\<exists>im. loadImgs (COCO ds) index = Some im \<and>
      width r = img_width im \<and> height r = img_height im \<and>
      boxes r = map (store_box \<circ> snd)
        (sanitize (img_width im) (img_height im) (imgToAnns (COCO ds) index)) \<and>
      (\<forall>b \<in> set (boxes r). in_image (img_width im) (img_height im) (box_uint b)) \<and>
      (img_width im \<le> 65536 \<and> img_height im \<le> 65536 \<longrightarrow>
         map box_uint (boxes r) =
           map (clean_bbox (img_width im) (img_height im))
             (filter (kept (img_width im) (img_height im)) (imgToAnns (COCO ds) index)))"
proof -
  from l obtain im table rows where
    im: "loadImgs (COCO ds) index = Some im"
    and table: "coco_cat_id_to_class_ind ds = Inr table"
    and rows: "mapM (fill_row table (length (classes ds)))
       (sanitize (img_width im) (img_height im) (imgToAnns (COCO ds) index)) = Inr rows"
    and v: "validate_boxes (map fst rows) (img_width im) (img_height im)"
    and req: "r = \<lparr>width = img_width im, height = img_height im, boxes = map fst rows,
          gt_classes = map (\<lambda>r. fst (snd r)) rows,
          gt_overlaps = map (\<lambda>r. snd (snd (snd r))) rows,
          flipped = False,
          seg_areas = map (\<lambda>r. fst (snd (snd r))) rows\<rparr>"
    by (rule load_coco_annotation_Inr)
  have r: "width r = img_width im" "height r = img_height im" "boxes r = map fst rows"
    by (simp_all add: req)
  have b: "boxes r = map (store_box \<circ> snd)
      (sanitize (img_width im) (img_height im) (imgToAnns (COCO ds) index))"
    using mapM_fill_row_boxes [OF rows] by (simp add: r)
  have i: "\<forall>b \<in> set (boxes r). in_image (img_width im) (img_height im) (box_uint b)"
    using v by (simp add: r validate_boxes_iff)
  have n: "map box_uint (boxes r) =
           map (clean_bbox (img_width im) (img_height im))
             (filter (kept (img_width im) (img_height im)) (imgToAnns (COCO ds) index))"
    if "img_width im \<le> 65536 \<and> img_height im \<le> 65536"
    using that unfolding b by (simp add: sanitize_filter kept_box_uint)
  from im r(1,2) b i n show ?thesis
    by blast
qed

subsection \<open>Images wider than a uint16\<close>

lemma init_broad:
  "init [''data/WiderPedestrian/annotations/WiderPedestrian_val.json'' \<mapsto> broad_coco]
     ''data'' ''val'' None None = Inr broad_ds"
  by (simp add: init_def broad_ds_def pedestrian_ds_def get_default_path_def
      get_ann_file_def osp_join_def join_step_def competition_mode_def broad_coco_def
      Let_def)

lemma table_broad: "coco_cat_id_to_class_ind broad_ds = Inr [(1, 1)]"
  by (simp add: coco_cat_id_to_class_ind_def broad_ds_def pedestrian_ds_def dict_get_def)

lemma sanitize_broad_7:
  "sanitize 70000 80 (imgToAnns broad_coco 7) =
     [(\<lparr>bbox = (0, 10, 70000, 41), area = 2870000, category_id = 1, iscrowd = False\<rparr>,
       (0, 10, 69999, 50))]"
  by (simp add: broad_coco_def clean_bbox_def int64_add_def)

lemma sanitize_broad_8:
  "sanitize 70000 80 (imgToAnns broad_coco 8) =
     [(\<lparr>bbox = (10000, 10, 60000, 41), area = 2460000, category_id = 1, iscrowd = False\<rparr>,
       (10000, 10, 69999, 50))]"
  by (simp add: broad_coco_def clean_bbox_def int64_add_def)

lemma store_box_broad:
  "store_box (0, 10, 69999, 50) = (0, 10, 4463, 50)"
  "store_box (10000, 10, 69999, 50) = (10000, 10, 4463, 50)"
  by (simp_all add: store_box_def)

text \<open>
  Claim C1. An image of 70000 by 80 pixels with the annotation \<open>[0, 10, 70000, 41]\<close>: the
  clipped box is \<open>(0, 10, 69999, 50)\<close> and the annotation is kept, but the record holds the
  box \<open>(0, 10, 4463, 50)\<close>, since 69999 is stored into a uint16. The same image with the
  annotation \<open>[10000, 10, 60000, 41]\<close>: the clipped box is \<open>(10000, 10, 69999, 50)\<close>, it
  lies in the image and the annotation is kept, the array holds \<open>(10000, 10, 4463, 50)\<close>,
  whose corners are out of order, and the conversion ends in the AssertionError of
  \<^verbatim>\<open>validate_boxes\<close> instead of a record.
\<close>

theorem load_coco_annotation_wide_boxes:
  "init [''data/WiderPedestrian/annotations/WiderPedestrian_val.json'' \<mapsto> broad_coco]
     ''data'' ''val'' None None = Inr broad_ds \<and>
   loadImgs (COCO broad_ds) 7 = Some \<lparr>img_width = 70000, img_height = 80\<rparr> \<and>
   imgToAnns (COCO broad_ds) 7 =
     [\<lparr>bbox = (0, 10, 70000, 41), area = 2870000, category_id = 1, iscrowd = False\<rparr>] \<and>
   clean_bbox 70000 80
     \<lparr>bbox = (0, 10, 70000, 41), area = 2870000, category_id = 1, iscrowd = False\<rparr> =
     (0, 10, 69999, 50) \<and>
   kept 70000 80
     \<lparr>bbox = (0, 10, 70000, 41), area = 2870000, category_id = 1, iscrowd = False\<rparr> \<and>
   in_image 70000 80 (0, 10, 69999, 50) \<and>
   store_box (0, 10, 69999, 50) = (0, 10, 4463, 50) \<and>
   load_coco_annotation broad_ds 7 =
     Inr \<lparr>width = 70000, height = 80, boxes = [(0, 10, 4463, 50)], gt_classes = [1],
          gt_overlaps = [[0, 1]], flipped = False, seg_areas = [F32 2870000]\<rparr> \<and>
   box_uint (0, 10, 4463, 50) = (0, 10, 4463, 50) \<and>
   loadImgs (COCO broad_ds) 8 = Some \<lparr>img_width = 70000, img_height = 80\<rparr> \<and>
   imgToAnns (COCO broad_ds) 8 =
     [\<lparr>bbox = (10000, 10, 60000, 41), area = 2460000, category_id = 1, iscrowd = False\<rparr>] \<and>
   clean_bbox 70000 80
     \<lparr>bbox = (10000, 10, 60000, 41), area = 2460000, category_id = 1, iscrowd = False\<rparr> =
     (10000, 10, 69999, 50) \<and>
   kept 70000 80
     \<lparr>bbox = (10000, 10, 60000, 41), area = 2460000, category_id = 1, iscrowd = False\<rparr> \<and>
   in_image 70000 80 (10000, 10, 69999, 50) \<and>
   store_box (10000, 10, 69999, 50) = (10000, 10, 4463, 50) \<and>
   load_coco_annotation broad_ds 8 = Inl AssertionError"
proof -
  have c: "COCO broad_ds = broad_coco"
    "classes broad_ds = [''__background__'', ''pedestrian'']"
    by (simp_all add: broad_ds_def pedestrian_ds_def)
  have l: "loadImgs broad_coco 7 = Some \<lparr>img_width = 70000, img_height = 80\<rparr>"
    "loadImgs broad_coco 8 = Some \<lparr>img_width = 70000, img_height = 80\<rparr>"
    by (simp_all add: broad_coco_def)
  have a: "imgToAnns broad_coco 7 =
     [\<lparr>bbox = (0, 10, 70000, 41), area = 2870000, category_id = 1, iscrowd = False\<rparr>]"
    "imgToAnns broad_coco 8 =
     [\<lparr>bbox = (10000, 10, 60000, 41), area = 2460000, category_id = 1, iscrowd = False\<rparr>]"
    by (simp_all add: broad_coco_def)
  have b: "clean_bbox 70000 80
     \<lparr>bbox = (0, 10, 70000, 41), area = 2870000, category_id = 1, iscrowd = False\<rparr> =
     (0, 10, 69999, 50)"
    "clean_bbox 70000 80
     \<lparr>bbox = (10000, 10, 60000, 41), area = 2460000, category_id = 1, iscrowd = False\<rparr> =
     (10000, 10, 69999, 50)"
    by (simp_all add: clean_bbox_def int64_add_def)
  have k: "kept 70000 80
     \<lparr>bbox = (0, 10, 70000, 41), area = 2870000, category_id = 1, iscrowd = False\<rparr>"
    "kept 70000 80
     \<lparr>bbox = (10000, 10, 60000, 41), area = 2460000, category_id = 1, iscrowd = False\<rparr>"
    by (simp_all add: kept_def b)
  have f: "store_float32 2870000 = Inr (F32 2870000)" "store_float32 2460000 = Inr (F32 2460000)"
    by (simp_all add: store_float32_small)
  have 7: "load_coco_annotation broad_ds 7 =
     Inr \<lparr>width = 70000, height = 80, boxes = [(0, 10, 4463, 50)], gt_classes = [1],
          gt_overlaps = [[0, 1]], flipped = False, seg_areas = [F32 2870000]\<rparr>"
    by (simp add: load_coco_annotation_def c l sanitize_broad_7 table_broad
        fill_row_def dict_get_def overlap_row_def store_box_broad validate_boxes_def f)
  have 8: "load_coco_annotation broad_ds 8 = Inl AssertionError"
    by (simp add: load_coco_annotation_def c l sanitize_broad_8 table_broad
        fill_row_def dict_get_def overlap_row_def store_box_broad validate_boxes_def f)
  have u: "box_uint (0, 10, 4463, 50) = (0, 10, 4463, 50)"
    by (simp add: box_uint_def)
  have i: "in_image 70000 80 (0, 10, 69999, 50)" "in_image 70000 80 (10000, 10, 69999, 50)"
    by (simp_all add: in_image_def)
  show ?thesis
    by (intro conjI init_broad 7 8 u i k b store_box_broad) (simp_all add: c l a)
qed

subsection \<open>The class of an annotation\<close>

text \<open>
  A lookup in a \<^verbatim>\<open>dict\<close> built from a list of pairs finds the last pair with the key.
\<close>

lemma dict_get_snoc:
  "dict_get (zs @ [z]) k = (if fst z = k then Inr (snd z) else dict_get zs k)"
  by (cases z) (simp add: dict_get_def)

lemma dict_get_Inr_last:
  "dict_get zs k = Inr v \<Longrightarrow>
   \<exists>j < length zs. zs ! j = (k, v) \<and> (\<forall>i < length zs. j < i \<longrightarrow> fst (zs ! i) \<noteq> k)"
proof (induction zs rule: rev_induct)
  case Nil
  then show ?case by (simp add: dict_get_def)
next
  case (snoc z zs)
  show ?case
  proof (cases "fst z = k")
    case True
    with snoc.prems have "z = (k, v)"
      by (cases z) (simp add: dict_get_snoc)
    then have "(zs @ [z]) ! length zs = (k, v)"
      by simp
    then show ?thesis
      by (intro exI [of _ "length zs"]) simp
  next
    case False
    with snoc.prems have "dict_get zs k = Inr v"
      by (simp add: dict_get_snoc)
    with snoc.IH obtain j where j: "j < length zs" "zs ! j = (k, v)"
      "\<forall>i < length zs. j < i \<longrightarrow> fst (zs ! i) \<noteq> k"
      by blast
    have "fst ((zs @ [z]) ! i) \<noteq> k" if "i < length (zs @ [z])" "j < i" for i
      using that j(3) False by (cases "i < length zs") (auto simp: nth_append)
    with j(1,2) show ?thesis
      by (intro exI [of _ j]) (simp add: nth_append)
  qed
qed

lemma dict_get_zip_last:
  assumes "length xs = length ys" and "dict_get (zip xs ys) k = Inr v"
  shows "\<exists>j < length xs. xs ! j = k \<and> ys ! j = v \<and> (\<forall>i < length xs. j < i \<longrightarrow> xs ! i \<noteq> k)"
proof -
  from dict_get_Inr_last [OF assms(2)] obtain j where j: "j < length (zip xs ys)"
    "zip xs ys ! j = (k, v)" "\<forall>i < length (zip xs ys). j < i \<longrightarrow> fst (zip xs ys ! i) \<noteq> k"
    by blast
  have "xs ! i \<noteq> k" if "i < length xs" "j < i" for i
    using that j(3) assms(1) by auto
  with j(1,2) assms(1) show ?thesis
    by (intro exI [of _ j]) simp
qed






subsection \<open>A data set with two categories\<close>

lemma init_street:
  "init [''data/WiderPedestrian/annotations/WiderPedestrian_val.json'' \<mapsto> street_coco]
     ''data'' ''val'' None None = Inr street_ds"
  by (simp add: init_def street_ds_def get_default_path_def
      get_ann_file_def osp_join_def join_step_def competition_mode_def street_coco_def
      Let_def)

lemma adapter_state_street: "adapter_state street_ds"
  using init_street by (rule adapter_state.by_init)






section \<open>Properties of flipping\<close>

lemma uint_flip:
  fixes x :: "16 word"
  assumes "uint x \<le> w - 1" and "w \<le> 65536"
  shows "uint (word_of_int w - x - 1) = w - uint x - 1"
proof -
  have "word_of_int w - x - 1 = (word_of_int (w - uint x - 1) :: 16 word)"
    by simp
  moreover have "0 \<le> w - uint x - 1" "w - uint x - 1 < 65536"
    using assms uint_ge_0 [of x] by linarith+
  ultimately show ?thesis
    by (simp only: uint_store)
qed

lemma flip_box_uint:
  assumes "uint x1 \<le> uint x2" and "uint x2 \<le> w - 1" and "w \<le> 65536"
  shows "box_uint (flip_box w (x1, y1, x2, y2)) =
     (w - uint x2 - 1, uint y1, w - uint x1 - 1, uint y2)"
  using assms by (simp add: flip_box_def box_uint_def uint_flip)

lemma flip_box_ordered:
  assumes "uint x1 \<le> uint x2" and "uint x2 \<le> w - 1" and "w \<le> 65536"
  shows "(case flip_box w (x1, y1, x2, y2) of (a, b, c, d) \<Rightarrow> c \<ge> a)"
  using assms by (simp add: flip_box_def word_le_def uint_flip)

lemma flip_entry_asserts:
  assumes "record_ok r" and "width r \<le> 65536"
  shows "list_all (\<lambda>(x1, y1, x2, y2). x2 \<ge> x1) (boxes (flip_entry (width r) r))"
proof -
  have "case flip_box (width r) b of (x1, y1, x2, y2) \<Rightarrow> x2 \<ge> x1" if "b \<in> set (boxes r)" for b
  proof -
    obtain x1 y1 x2 y2 where b: "b = (x1, y1, x2, y2)"
      by (cases b) auto
    with that assms(1) have "uint x1 \<le> uint x2" "uint x2 \<le> width r - 1"
      by (auto simp: record_ok_def list_all_iff)
    then show ?thesis
      unfolding b using assms(2) by (rule flip_box_ordered)
  qed
  then show ?thesis
    by (simp add: flip_entry_def list_all_iff)
qed

lemma init_wide:
  "init [''data/WiderPedestrian/annotations/WiderPedestrian_val.json'' \<mapsto> wide_coco]
     ''data'' ''val'' None None = Inr wide_ds"
  by (simp add: init_def wide_ds_def pedestrian_ds_def get_default_path_def
      get_ann_file_def osp_join_def join_step_def competition_mode_def wide_coco_def
      Let_def)

lemma load_wide: "load_coco_annotation wide_ds 7 = Inr wide_record"
proof -
  have c: "COCO wide_ds = wide_coco" "classes wide_ds = [''__background__'', ''pedestrian'']"
    by (simp_all add: wide_ds_def pedestrian_ds_def)
  have l: "loadImgs wide_coco 7 = Some \<lparr>img_width = 70000, img_height = 80\<rparr>"
    by (simp add: wide_coco_def)
  have t: "coco_cat_id_to_class_ind wide_ds = Inr [(1, 1)]"
    by (simp add: coco_cat_id_to_class_ind_def wide_ds_def pedestrian_ds_def dict_get_def)
  have s: "sanitize 70000 80 (imgToAnns wide_coco 7) =
     [(\<lparr>bbox = (0, 10, 5001, 41), area = 200000, category_id = 1, iscrowd = False\<rparr>,
       (0, 10, 5000, 50))]"
    by (simp add: wide_coco_def clean_bbox_def int64_add_def)
  show ?thesis
    by (simp add: load_coco_annotation_def c l s t
        fill_row_def dict_get_def overlap_row_def store_box_def validate_boxes_def
        store_float32_small wide_record_def)
qed

lemma flip_wide:
  "boxes (flip_entry 70000 wide_record) = [(64999, 10, 4463, 50)]"
  by (simp add: flip_entry_def flip_box_def wide_record_def)

lemma flip_loop_all:
  assumes "\<forall>i \<in> set ixs. i < length r0"
    and "\<forall>r \<in> set r0. record_ok r \<and> width r \<le> 65536"
  shows "flip_loop (map width r0) ixs (r0 @ acc) =
     (None, r0 @ acc @ map (\<lambda>i. flip_entry (width (r0 ! i)) (r0 ! i)) ixs)"
  using assms(1)
proof (induction ixs arbitrary: acc)
  case Nil
  then show ?case by simp
next
  case (Cons i ixs)
  then have i: "i < length r0" and rest: "\<forall>i \<in> set ixs. i < length r0"
    by simp_all
  from i assms(2) have ok: "record_ok (r0 ! i)" "width (r0 ! i) \<le> 65536"
    by simp_all
  have a: "list_all (\<lambda>(x1, y1, x2, y2). x2 \<ge> x1) (boxes (flip_entry (width (r0 ! i)) (r0 ! i)))"
    using ok by (rule flip_entry_asserts)
  show ?case
    using Cons.IH [OF rest, of "acc @ [flip_entry (width (r0 ! i)) (r0 ! i)]"] i a
    by (simp add: nth_append Let_def)
qed

lemma flip_loop_no_assert:
  assumes "\<forall>r \<in> set r0. record_ok r \<and> width r \<le> 65536"
  shows "fst (flip_loop (map width r0) ixs (r0 @ acc)) \<noteq> Some AssertionError"
proof (induction ixs arbitrary: acc)
  case Nil
  then show ?case by simp
next
  case (Cons i ixs)
  show ?case
  proof (cases "i < length r0")
    case False
    then show ?thesis by simp
  next
    case True
    with assms have ok: "record_ok (r0 ! i)" "width (r0 ! i) \<le> 65536"
      by simp_all
    have a: "list_all (\<lambda>(x1, y1, x2, y2). x2 \<ge> x1) (boxes (flip_entry (width (r0 ! i)) (r0 ! i)))"
      using ok by (rule flip_entry_asserts)
    show ?thesis
      using Cons.IH [of "acc @ [flip_entry (width (r0 ! i)) (r0 ! i)]"] True a
      by (simp add: nth_append Let_def)
  qed
qed

lemma append_flipped_images_ok:
  assumes "length (image_index ds) = length roidb"
    and "\<forall>r \<in> set roidb. record_ok r \<and> width r \<le> 65536"
  shows "append_flipped_images ds roidb =
     (Inr (), ds\<lparr>image_index := image_index ds @ image_index ds\<rparr>,
      roidb @ map (\<lambda>r. flip_entry (width r) r) roidb)"
proof -
  have "flip_loop (map width roidb) [0..<length roidb] (roidb @ []) =
     (None, roidb @ [] @ map (\<lambda>i. flip_entry (width (roidb ! i)) (roidb ! i)) [0..<length roidb])"
    using assms(2) by (intro flip_loop_all) simp_all
  moreover have "map (\<lambda>i. flip_entry (width (roidb ! i)) (roidb ! i)) [0..<length roidb] =
     map (\<lambda>r. flip_entry (width r) r) roidb"
    by (rule nth_equalityI) simp_all
  ultimately show ?thesis
    by (simp add: append_flipped_images_def get_widths_def assms(1))
qed

lemma pedestrian_record_ok: "record_ok pedestrian_record \<and> width pedestrian_record \<le> 65536"
  by (simp add: record_ok_def pedestrian_record_def)

text \<open>
  Flipping a roidb of records at most 65536 pixels wide. Let the index and the roidb both
  have \<open>n\<close> entries, and let every record have \<open>x1 \<le> x2 \<le> width - 1\<close> in every box.
  Then \<^verbatim>\<open>append_flipped_images\<close> succeeds; the index becomes the old index twice; the
  roidb has \<open>2n\<close> entries, the first \<open>n\<close> unchanged; entry \<open>n + i\<close> is entry \<open>i\<close> with
  \<open>flipped\<close> set, the same width, height, classes, overlaps and areas, and boxes
  \<open>x1' = width - x2 - 1\<close>, \<open>x2' = width - x1 - 1\<close> with the y-coordinates unchanged.
\<close>

lemma append_flipped_images_narrow:
  assumes "length (image_index ds) = n" and "length roidb = n"
    and "\<forall>r \<in> set roidb. record_ok r \<and> width r \<le> 65536"
  shows "\<exists>ds' roidb'.
     append_flipped_images ds roidb = (Inr (), ds', roidb') \<and>
     image_index ds' = image_index ds @ image_index ds \<and>
     length (image_index ds') = 2 * n \<and> length roidb' = 2 * n \<and>
     take n roidb' = roidb \<and>
     (\<forall>i < n.
        width (roidb' ! (n + i)) = width (roidb ! i) \<and>
        height (roidb' ! (n + i)) = height (roidb ! i) \<and>
        gt_classes (roidb' ! (n + i)) = gt_classes (roidb ! i) \<and>
        gt_overlaps (roidb' ! (n + i)) = gt_overlaps (roidb ! i) \<and>
        seg_areas (roidb' ! (n + i)) = seg_areas (roidb ! i) \<and>
        flipped (roidb' ! (n + i)) \<and>
        length (boxes (roidb' ! (n + i))) = length (boxes (roidb ! i)) \<and>
        (\<forall>j < length (boxes (roidb ! i)).
           box_uint (boxes (roidb' ! (n + i)) ! j) =
             (case box_uint (boxes (roidb ! i) ! j) of (x1, y1, x2, y2) \<Rightarrow>
                (width (roidb ! i) - x2 - 1, y1, width (roidb ! i) - x1 - 1, y2))))"
proof -
  define roidb' where "roidb' = roidb @ map (\<lambda>r. flip_entry (width r) r) roidb"
  have run: "append_flipped_images ds roidb =
     (Inr (), ds\<lparr>image_index := image_index ds @ image_index ds\<rparr>, roidb')"
    unfolding roidb'_def using assms by (intro append_flipped_images_ok) simp_all
  have nth: "roidb' ! (n + i) = flip_entry (width (roidb ! i)) (roidb ! i)" if "i < n" for i
    using that assms(2) by (simp add: roidb'_def nth_append)
  have bx: "box_uint (boxes (roidb' ! (n + i)) ! j) =
      (case box_uint (boxes (roidb ! i) ! j) of (x1, y1, x2, y2) \<Rightarrow>
         (width (roidb ! i) - x2 - 1, y1, width (roidb ! i) - x1 - 1, y2))"
    if i: "i < n" and j: "j < length (boxes (roidb ! i))" for i j
  proof -
    obtain x1 y1 x2 y2 where b: "boxes (roidb ! i) ! j = (x1, y1, x2, y2)"
      by (cases "boxes (roidb ! i) ! j") auto
    from i assms have ok: "record_ok (roidb ! i)" and w: "width (roidb ! i) \<le> 65536"
      by simp_all
    from ok j b have "uint x1 \<le> uint x2" "uint x2 \<le> width (roidb ! i) - 1"
      by (auto simp: record_ok_def list_all_length split: prod.splits)
    then have "box_uint (flip_box (width (roidb ! i)) (x1, y1, x2, y2)) =
        (width (roidb ! i) - uint x2 - 1, uint y1, width (roidb ! i) - uint x1 - 1, uint y2)"
      using w by (rule flip_box_uint)
    then show ?thesis
      using j by (simp add: nth [OF i] flip_entry_def b box_uint_def)
  qed
  have "\<forall>i < n.
        width (roidb' ! (n + i)) = width (roidb ! i) \<and>
        height (roidb' ! (n + i)) = height (roidb ! i) \<and>
        gt_classes (roidb' ! (n + i)) = gt_classes (roidb ! i) \<and>
        gt_overlaps (roidb' ! (n + i)) = gt_overlaps (roidb ! i) \<and>
        seg_areas (roidb' ! (n + i)) = seg_areas (roidb ! i) \<and>
        flipped (roidb' ! (n + i)) \<and>
        length (boxes (roidb' ! (n + i))) = length (boxes (roidb ! i)) \<and>
        (\<forall>j < length (boxes (roidb ! i)).
           box_uint (boxes (roidb' ! (n + i)) ! j) =
             (case box_uint (boxes (roidb ! i) ! j) of (x1, y1, x2, y2) \<Rightarrow>
                (width (roidb ! i) - x2 - 1, y1, width (roidb ! i) - x1 - 1, y2)))"
  proof (intro allI impI conjI)
    fix i j assume "i < n" "j < length (boxes (roidb ! i))"
    then show "box_uint (boxes (roidb' ! (n + i)) ! j) =
             (case box_uint (boxes (roidb ! i) ! j) of (x1, y1, x2, y2) \<Rightarrow>
                (width (roidb ! i) - x2 - 1, y1, width (roidb ! i) - x1 - 1, y2))"
      by (rule bx)
  qed (simp_all add: nth flip_entry_def)
  moreover have "length roidb' = 2 * n" "take n roidb' = roidb"
    using assms(2) by (simp_all add: roidb'_def)
  ultimately show ?thesis
    using run assms(1) by simp
qed

text \<open>The example of the specification: in an image 100 wide, \<open>(10, 10, 50, 50)\<close> becomes
  \<open>(49, 10, 89, 50)\<close>.\<close>

lemma append_flipped_images_pedestrian:
  "record_ok pedestrian_record \<and> width pedestrian_record \<le> 65536 \<and>
   fst (append_flipped_images pedestrian_ds [pedestrian_record]) = Inr () \<and>
   image_index (fst (snd (append_flipped_images pedestrian_ds [pedestrian_record]))) = [93, 93] \<and>
   length (snd (snd (append_flipped_images pedestrian_ds [pedestrian_record]))) = 2 \<and>
   box_uint (boxes (snd (snd (append_flipped_images pedestrian_ds [pedestrian_record])) ! 1) ! 0) =
     (49, 10, 89, 50)"
proof -
  have i: "image_index pedestrian_ds = [93]"
    by (simp add: pedestrian_ds_def)
  have b: "boxes pedestrian_record = [(10, 10, 50, 50), (0, 70, 19, 79)]"
    and w: "width pedestrian_record = 100"
    by (simp_all add: pedestrian_record_def)
  have "\<forall>r \<in> set [pedestrian_record]. record_ok r \<and> width r \<le> 65536"
    using pedestrian_record_ok by simp
  with append_flipped_images_narrow [of pedestrian_ds 1 "[pedestrian_record]"] obtain ds' roidb' where
    run: "append_flipped_images pedestrian_ds [pedestrian_record] = (Inr (), ds', roidb')"
    and idx: "image_index ds' = image_index pedestrian_ds @ image_index pedestrian_ds"
    and len: "length roidb' = 2 * 1"
    and bx: "\<forall>j < length (boxes ([pedestrian_record] ! 0)).
           box_uint (boxes (roidb' ! (1 + 0)) ! j) =
             (case box_uint (boxes ([pedestrian_record] ! 0) ! j) of (x1, y1, x2, y2) \<Rightarrow>
                (width ([pedestrian_record] ! 0) - x2 - 1, y1, width ([pedestrian_record] ! 0) - x1 - 1, y2))"
    by (auto simp: i)
  from bx have "box_uint (boxes (roidb' ! 1) ! 0) = (49, 10, 89, 50)"
    by (simp add: b w box_uint_def)
  then show ?thesis
    using pedestrian_record_ok by (simp add: run idx len i)
qed

text \<open>
  Claim C3. An image of 70000 by 80 pixels with the annotation \<open>[0, 10, 5001, 41]\<close>: the
  constructor builds the data set, the conversion yields a record whose one box
  \<open>(0, 10, 5000, 50)\<close> has \<open>x1 \<le> x2 \<le> width - 1\<close>, and on this index and roidb of
  length one \<^verbatim>\<open>append_flipped_images\<close> raises the AssertionError of its own assertion:
  no mirrored record is appended and the index is not doubled.
\<close>

theorem append_flipped_images_wide_fails:
  "init [''data/WiderPedestrian/annotations/WiderPedestrian_val.json'' \<mapsto> wide_coco]
     ''data'' ''val'' None None = Inr wide_ds \<and>
   image_index wide_ds = [7] \<and>
   load_coco_annotation wide_ds 7 = Inr wide_record \<and>
   width wide_record = 70000 \<and>
   map box_uint (boxes wide_record) = [(0, 10, 5000, 50)] \<and>
   record_ok wide_record \<and>
   append_flipped_images wide_ds [wide_record] = (Inl AssertionError, wide_ds, [wide_record])"
proof -
  have i: "image_index wide_ds = [7]"
    by (simp add: wide_ds_def)
  have ok: "record_ok wide_record"
    by (simp add: record_ok_def wide_record_def)
  have w: "width wide_record = 70000"
    by (simp add: wide_record_def)
  have b: "map box_uint (boxes wide_record) = [(0, 10, 5000, 50)]"
    by (simp add: wide_record_def box_uint_def)
  have "append_flipped_images wide_ds [wide_record] = (Inl AssertionError, wide_ds, [wide_record])"
    by (simp add: append_flipped_images_def get_widths_def i w flip_wide)
  with init_wide i load_wide w b ok show ?thesis
    by (intro conjI)
qed

text \<open>
  When every record is at most 65536 pixels wide and every box has
  \<open>x1 \<le> x2 \<le> width - 1\<close>, every mirrored box has \<open>x2' \<ge> x1'\<close>, and
  \<^verbatim>\<open>append_flipped_images\<close> does not fail at its assertion, whatever the index is.
\<close>

lemma flip_assertion_narrow:
  assumes "\<forall>r \<in> set roidb. record_ok r \<and> width r \<le> 65536"
  shows "fst (append_flipped_images ds roidb) \<noteq> Inl AssertionError \<and>
     (\<forall>r \<in> set roidb.
        list_all (\<lambda>(x1, y1, x2, y2). x2 \<ge> x1) (boxes (flip_entry (width r) r)))"
proof
  have "fst (flip_loop (map width roidb) [0..<length (image_index ds)] (roidb @ [])) \<noteq>
      Some AssertionError"
    using assms by (rule flip_loop_no_assert)
  then show "fst (append_flipped_images ds roidb) \<noteq> Inl AssertionError"
    by (auto simp: append_flipped_images_def get_widths_def Let_def split: prod.splits option.splits)
  show "\<forall>r \<in> set roidb.
        list_all (\<lambda>(x1, y1, x2, y2). x2 \<ge> x1) (boxes (flip_entry (width r) r))"
    using assms by (simp add: flip_entry_asserts)
qed

text \<open>
  Claim C10. A record 70000 pixels wide whose one box \<open>(0, 10, 5000, 50)\<close> satisfies
  \<open>0 \<le> x1 \<le> x2 \<le> width - 1\<close>: the mirrored box is computed in uint16 and is
  \<open>(64999, 10, 4463, 50)\<close>, so the assertion \<open>x2' \<ge> x1'\<close> fails, the loop stops with
  AssertionError, and so does \<^verbatim>\<open>append_flipped_images\<close>.
\<close>

theorem flip_assertion_wide_fails:
  "width wide_record = 70000 \<and>
   list_all (\<lambda>(x1, y1, x2, y2). 0 \<le> uint x1 \<and> uint x1 \<le> uint x2 \<and> uint x2 \<le> width wide_record - 1)
     (boxes wide_record) \<and>
   map box_uint (boxes (flip_entry (width wide_record) wide_record)) = [(64999, 10, 4463, 50)] \<and>
   \<not> list_all (\<lambda>(x1, y1, x2, y2). x2 \<ge> x1) (boxes (flip_entry (width wide_record) wide_record)) \<and>
   flip_loop (get_widths [wide_record]) [0] [wide_record] = (Some AssertionError, [wide_record]) \<and>
   fst (append_flipped_images wide_ds [wide_record]) = Inl AssertionError"
proof -
  have w: "width wide_record = 70000"
    by (simp add: wide_record_def)
  have b: "boxes wide_record = [(0, 10, 5000, 50)]"
    by (simp add: wide_record_def)
  have i: "image_index wide_ds = [7]"
    by (simp add: wide_ds_def)
  show ?thesis
    by (simp add: get_widths_def w b i flip_wide box_uint_def append_flipped_images_def)
qed

section \<open>Properties of detection results\<close>

lemma coco_results_one_category_Inr:
  "length idx \<le> length bs \<Longrightarrow>
   coco_results_one_category idx bs cat_id = Inr (category_results idx bs cat_id)"
  by (induction idx bs cat_id rule: coco_results_one_category.induct)
     (simp_all add: category_results_def)

lemma coco_results_one_category_Inl:
  "length bs < length idx \<Longrightarrow> coco_results_one_category idx bs cat_id = Inl IndexError"
  by (induction idx bs cat_id rule: coco_results_one_category.induct) simp_all

lemma mapM_cong:
  "(\<And>x. x \<in> set xs \<Longrightarrow> f x = g x) \<Longrightarrow> mapM f xs = mapM g xs"
proof (induction xs)
  case Nil
  then show ?case by simp
next
  case (Cons a xs)
  then have e: "f a = g a" "mapM f xs = mapM g xs"
    by simp_all
  show ?case
    unfolding mapM.simps e ..
qed

text \<open>When a step can only fail with one error and some step fails, the loop fails with it.\<close>

lemma mapM_Inl_only:
  assumes "\<And>x. x \<in> set xs \<Longrightarrow> f x = Inl e \<or> (\<exists>y. f x = Inr y)"
    and "\<exists>x \<in> set xs. f x = Inl e"
  shows "mapM f xs = Inl e"
proof -
  from assms(2) have "\<exists>e'. mapM f xs = Inl e'"
    by (auto simp: mapM_Inl_iff)
  then obtain e' where e': "mapM f xs = Inl e'"
    by blast
  have "e' = e" using assms(1) e'
  proof (induction xs)
    case Nil
    then show ?case by simp
  next
    case (Cons a xs)
    from Cons.prems(1) [of a] consider "f a = Inl e" | y where "f a = Inr y"
      by auto
    then show ?case
    proof cases
      case 1
      with Cons.prems(2) show ?thesis by simp
    next
      case 2
      with Cons.prems(2) have "mapM f xs = Inl e'"
        by (simp split: sum.splits)
      with Cons.IH Cons.prems(1) show ?thesis
        by simp
    qed
  qed
  with e' show ?thesis
    by simp
qed

lemma results_of_class_background:
  "results_of_class ds all_boxes (i, ''__background__'') = Inr []"
  by (simp add: results_of_class_def)

lemma collect_results_skips_class_0:
  assumes "hd (classes ds) = ''__background__''"
  shows "collect_results ds (b0 # rest) = collect_results ds (b0' # rest)"
proof -
  have "results_of_class ds (b0 # rest) ic = results_of_class ds (b0' # rest) ic"
    if "ic \<in> set (enumerate 0 (classes ds))" for ic
  proof -
    obtain i cls where ic: "ic = (i, cls)" by (cases ic)
    with that have i: "i < length (classes ds)" and cls: "cls = classes ds ! i"
      by (simp_all add: in_set_enumerate_eq)
    show ?thesis
    proof (cases i)
      case 0
      with i cls assms have "cls = ''__background__''"
        by (simp add: hd_conv_nth)
      then show ?thesis
        by (simp add: ic results_of_class_background)
    next
      case (Suc k)
      then show ?thesis
        by (simp add: ic results_of_class_def split: sum.splits)
    qed
  qed
  then have "mapM (results_of_class ds (b0 # rest)) (enumerate 0 (classes ds)) =
      mapM (results_of_class ds (b0' # rest)) (enumerate 0 (classes ds))"
    by (rule mapM_cong)
  then show ?thesis
    by (simp add: collect_results_def)
qed

text \<open>
  The dictionary from class names to category ids answers with the id of the last category
  of the name.
\<close>

lemma dict_get_cat_id_of:
  "cls \<in> snd ` set cs \<Longrightarrow>
   dict_get (zip (map snd cs) (map fst cs)) cls = Inr (cat_id_of cs cls)"
proof (induction cs rule: rev_induct)
  case Nil
  then show ?case by simp
next
  case (snoc x cs)
  have z: "zip (map snd (cs @ [x])) (map fst (cs @ [x])) =
      zip (map snd cs) (map fst cs) @ [(snd x, fst x)]"
    by simp
  show ?case
  proof (cases "snd x = cls")
    case True
    then show ?thesis
      unfolding z by (simp add: dict_get_snoc cat_id_of_def)
  next
    case False
    with snoc.prems have "cls \<in> snd ` set cs"
      by auto
    with snoc.IH False show ?thesis
      unfolding z by (simp add: dict_get_snoc cat_id_of_def)
  qed
qed

lemma cat_id_of_distinct:
  assumes "distinct (map snd cs)" and "j < length cs"
  shows "cat_id_of cs (snd (cs ! j)) = fst (cs ! j)"
proof -
  have "snd (cs ! j) \<in> snd ` set cs"
    using assms(2) by simp
  then have "dict_get (zip (map snd cs) (map fst cs)) (snd (cs ! j)) =
      Inr (cat_id_of cs (snd (cs ! j)))"
    by (rule dict_get_cat_id_of)
  with dict_get_zip_last [of "map snd cs" "map fst cs" "snd (cs ! j)" "cat_id_of cs (snd (cs ! j))"]
  obtain m where m: "m < length cs" "snd (cs ! m) = snd (cs ! j)"
    "fst (cs ! m) = cat_id_of cs (snd (cs ! j))"
    by auto
  from m(1,2) assms(2) have "m = j"
    using nth_eq_iff_index_eq [OF assms(1), of m j] by simp
  with m(3) show ?thesis
    by simp
qed

lemma enumerate_upt: "enumerate 0 xs = map (\<lambda>i. (i, xs ! i)) [0..<length xs]"
  by (rule nth_equalityI) (simp_all add: nth_enumerate_eq)

lemma concat_map_filter:
  "concat (map (\<lambda>i. if Q i then h i else []) xs) = concat (map h (filter Q xs))"
  by (induction xs) simp_all

text \<open>One step of the loop over the classes, for a state of the adapter.\<close>

lemma results_of_class_adapter_state:
  fixes all_boxes :: "('a::{plus,minus,one}) det list list list"
  assumes s: "adapter_state ds" and i: "i < length (classes ds)"
  shows "results_of_class ds all_boxes (i, classes ds ! i) =
     (if classes ds ! i = ''__background__'' then Inr []
      else if i < length all_boxes \<and> length (image_index ds) \<le> length (all_boxes ! i)
      then Inr (category_results (image_index ds) (all_boxes ! i)
                  (cat_id_of (cats (COCO ds)) (classes ds ! i)))
      else Inl IndexError)"
proof (cases "classes ds ! i = ''__background__''")
  case True
  then show ?thesis
    by (simp add: results_of_class_background)
next
  case False
  note f = adapter_state_fields [OF s]
  from False f(2) obtain k where k: "i = Suc k"
    by (cases i) auto
  with i have "classes ds ! i \<in> snd ` set (cats (COCO ds))"
    by (simp add: f(2))
  then have d: "dict_get (class_to_coco_cat_id ds) (classes ds ! i) =
      Inr (cat_id_of (cats (COCO ds)) (classes ds ! i))"
    unfolding f(4) by (rule dict_get_cat_id_of)
  show ?thesis
  proof (cases "i < length all_boxes")
    case outside: False
    with False d show ?thesis
      by (simp add: results_of_class_def)
  next
    case True
    show ?thesis
    proof (cases "length (image_index ds) \<le> length (all_boxes ! i)")
      case True
      with False d \<open>i < length all_boxes\<close> show ?thesis
        by (simp add: results_of_class_def coco_results_one_category_Inr)
    next
      case short: False
      then have "coco_results_one_category (image_index ds) (all_boxes ! i)
          (cat_id_of (cats (COCO ds)) (classes ds ! i)) = Inl IndexError"
        by (intro coco_results_one_category_Inl) simp
      with False d True short show ?thesis
        by (simp add: results_of_class_def)
    qed
  qed
qed

lemma collect_results_shaped:
  fixes all_boxes :: "('a::{plus,minus,one}) det list list list"
  assumes s: "adapter_state ds" and b: "boxes_shaped ds all_boxes"
  shows "collect_results ds all_boxes = Inr (flat_results ds all_boxes)"
proof -
  let ?h = "\<lambda>c. category_results (image_index ds) (all_boxes ! c)
      (cat_id_of (cats (COCO ds)) (classes ds ! c))"
  let ?g = "\<lambda>ic. if classes ds ! fst ic \<noteq> ''__background__'' then ?h (fst ic) else []"
  have "results_of_class ds all_boxes ic = Inr (?g ic)"
    if "ic \<in> set (enumerate 0 (classes ds))" for ic
  proof -
    obtain i cls where ic: "ic = (i, cls)" by (cases ic)
    with that have i: "i < length (classes ds)" and cls: "cls = classes ds ! i"
      by (simp_all add: in_set_enumerate_eq)
    from b i have "classes ds ! i = ''__background__'' \<or>
        (i < length all_boxes \<and> length (image_index ds) \<le> length (all_boxes ! i))"
      by (simp add: boxes_shaped_def list_all_iff)
    then show ?thesis
      unfolding ic cls by (auto simp: results_of_class_adapter_state [OF s i])
  qed
  then have "mapM (results_of_class ds all_boxes) (enumerate 0 (classes ds)) =
      Inr (map ?g (enumerate 0 (classes ds)))"
    by (rule mapM_all_Inr)
  moreover have "concat (map ?g (enumerate 0 (classes ds))) = flat_results ds all_boxes"
    unfolding flat_results_def enumerate_upt
    by (simp add: o_def concat_map_filter [symmetric] cong: if_cong)
  ultimately show ?thesis
    by (simp add: collect_results_def)
qed

lemma collect_results_not_shaped:
  fixes all_boxes :: "('a::{plus,minus,one}) det list list list"
  assumes s: "adapter_state ds" and b: "\<not> boxes_shaped ds all_boxes"
  shows "collect_results ds all_boxes = Inl IndexError"
proof -
  have 1: "results_of_class ds all_boxes ic = Inl IndexError \<or>
      (\<exists>y. results_of_class ds all_boxes ic = Inr y)"
    if "ic \<in> set (enumerate 0 (classes ds))" for ic
  proof -
    obtain i cls where ic: "ic = (i, cls)" by (cases ic)
    with that have i: "i < length (classes ds)" and cls: "cls = classes ds ! i"
      by (simp_all add: in_set_enumerate_eq)
    show ?thesis
      unfolding ic cls by (simp add: results_of_class_adapter_state [OF s i])
  qed
  from b obtain i where i: "i < length (classes ds)"
    and nb: "classes ds ! i \<noteq> ''__background__''"
    and short: "\<not> (i < length all_boxes \<and> length (image_index ds) \<le> length (all_boxes ! i))"
    by (auto simp: boxes_shaped_def list_all_iff)
  have "results_of_class ds all_boxes (i, classes ds ! i) = Inl IndexError"
    using nb short by (simp add: results_of_class_adapter_state [OF s i])
  moreover have "(i, classes ds ! i) \<in> set (enumerate 0 (classes ds))"
    using i by (simp add: in_set_enumerate_eq)
  ultimately have 2: "\<exists>ic \<in> set (enumerate 0 (classes ds)).
      results_of_class ds all_boxes ic = Inl IndexError"
    by blast
  from 1 2 have "mapM (results_of_class ds all_boxes) (enumerate 0 (classes ds)) = Inl IndexError"
    by (rule mapM_Inl_only)
  then show ?thesis
    by (simp add: collect_results_def)
qed

lemma flat_results_from_1:
  fixes all_boxes :: "('a::{plus,minus,one}) det list list list"
  assumes s: "adapter_state ds" and n: "''__background__'' \<notin> snd ` set (cats (COCO ds))"
  shows "flat_results ds all_boxes =
     concat (map (\<lambda>c. category_results (image_index ds) (all_boxes ! c)
                        (cat_id_of (cats (COCO ds)) (classes ds ! c)))
               [1..<length (classes ds)])"
proof -
  note f = adapter_state_fields [OF s]
  have "filter (\<lambda>c. classes ds ! c \<noteq> ''__background__'') [0..<length (classes ds)] =
      [Suc 0..<length (classes ds)]"
  proof -
    have "0 < length (classes ds)"
      by (simp add: f(2))
    then have "[0..<length (classes ds)] = 0 # [Suc 0..<length (classes ds)]"
      by (rule upt_conv_Cons)
    moreover have "filter (\<lambda>c. classes ds ! c \<noteq> ''__background__'') [Suc 0..<length (classes ds)] =
        [Suc 0..<length (classes ds)]"
    proof (rule filter_True, rule ballI)
      fix c assume "c \<in> set [Suc 0..<length (classes ds)]"
      then have "Suc 0 \<le> c" "c < length (classes ds)"
        by simp_all
      then obtain k where k: "c = Suc k" "k < length (cats (COCO ds))"
        unfolding f(2) by (cases c) simp_all
      then have "classes ds ! c \<in> snd ` set (cats (COCO ds))"
        by (simp add: f(2))
      with n show "classes ds ! c \<noteq> ''__background__''"
        by metis
    qed
    moreover have "classes ds ! 0 = ''__background__''"
      by (simp add: f(2))
    ultimately show ?thesis
      by simp
  qed
  then show ?thesis
    by (simp add: flat_results_def)
qed

subsection \<open>A category called like the background\<close>

lemma init_odd:
  "init [''data/WiderPedestrian/annotations/WiderPedestrian_val.json'' \<mapsto> odd_coco]
     ''data'' ''val'' None None = Inr odd_ds"
  by (simp add: init_def odd_ds_def get_default_path_def
      get_ann_file_def osp_join_def join_step_def competition_mode_def odd_coco_def
      Let_def)

text \<open>
  Claim C5 as stated fails when a category of the annotation file is itself called
  \<^verbatim>\<open>__background__\<close>: the constructor builds the data set, the category is class 2 with
  the id 5, and the detection given for class 2 is left out of the file: the classes are
  skipped by name, not by index.
\<close>

theorem write_coco_results_file_named_background:
  "init [''data/WiderPedestrian/annotations/WiderPedestrian_val.json'' \<mapsto> odd_coco]
     ''data'' ''val'' None None = Inr odd_ds \<and>
   classes odd_ds = [''__background__'', ''pedestrian'', ''__background__''] \<and>
   cats (COCO odd_ds) = [(1, ''pedestrian''), (5, ''__background__'')] \<and>
   image_index odd_ds = [93] \<and>
   write_coco_results_file Map.empty odd_ds
      [[[]], [[]], [[(10, 10, 20, 30, 9 / 10 :: rat)]]] ''output/results.json'' =
     (Inr (), [''output/results.json'' \<mapsto> []])"
proof -
  have f: "classes odd_ds = [''__background__'', ''pedestrian'', ''__background__'']"
    "image_index odd_ds = [93]"
    "class_to_coco_cat_id odd_ds = [(''pedestrian'', 1), (''__background__'', 5)]"
    "cats (COCO odd_ds) = [(1, ''pedestrian''), (5, ''__background__'')]"
    by (simp_all add: odd_ds_def odd_coco_def)
  have "write_coco_results_file Map.empty odd_ds
      [[[]], [[]], [[(10, 10, 20, 30, 9 / 10 :: rat)]]] ''output/results.json'' =
     (Inr (), [''output/results.json'' \<mapsto> []])"
    by (simp add: write_coco_results_file_def collect_results_def results_of_class_def f
        dict_get_def)
  with init_odd f(1,4,2) show ?thesis
    by (intro conjI)
qed

text \<open>
  Claim C5, as amended. In every state of the adapter, when the detections hold a list for
  every class that is not called \<^verbatim>\<open>__background__\<close>, with an entry for every image of the
  index, \<^verbatim>\<open>_write_coco_results_file\<close> writes the flat list of the entries of these classes
  in order, each class with the id of the category of its name, image by image and row by
  row; otherwise it raises IndexError and writes nothing. Class 0 is called
  \<^verbatim>\<open>__background__\<close>, and what is given for it does not matter; when no category has that
  name, the classes written are 1, 2, ... to the last; when no two categories share a name,
  the category of class \<open>c\<close> is the one at place \<open>c - 1\<close>. An entry has the image id, the
  category id, the box \<open>[x1, y1, x2 - x1 + 1, y2 - y1 + 1]\<close> and the score; the detection
  \<open>(10, 10, 20, 30, 0.9)\<close> gets the box \<open>[10, 10, 11, 21]\<close>.
\<close>

theorem write_coco_results_file_flattens:
  fixes all_boxes :: "('a::{plus,minus,one}) det list list list"
  assumes "adapter_state ds"
  shows "(boxes_shaped ds all_boxes \<longrightarrow>
        write_coco_results_file d ds all_boxes res_file =
          (Inr (), d(res_file \<mapsto> flat_results ds all_boxes))) \<and>
     (\<not> boxes_shaped ds all_boxes \<longrightarrow>
        write_coco_results_file d ds all_boxes res_file = (Inl IndexError, d)) \<and>
     classes ds ! 0 = ''__background__'' \<and>
     collect_results ds (b0 # rest) = collect_results ds (b0' # (rest :: 'a det list list list)) \<and>
     (''__background__'' \<notin> snd ` set (cats (COCO ds)) \<longrightarrow>
        flat_results ds all_boxes =
          concat (map (\<lambda>c. category_results (image_index ds) (all_boxes ! c)
                             (cat_id_of (cats (COCO ds)) (classes ds ! c)))
                    [1..<length (classes ds)])) \<and>
     (distinct (map snd (cats (COCO ds))) \<longrightarrow>
        (\<forall>c. 0 < c \<and> c < length (classes ds) \<longrightarrow>
           cat_id_of (cats (COCO ds)) (classes ds ! c) = fst (cats (COCO ds) ! (c - 1)))) \<and>
     category_results (index # idx) (dets # bs) cat_id =
       map (result_of index cat_id) dets @ category_results idx bs (cat_id :: int) \<and>
     result_of index cat_id (x1, y1, x2, y2, sc :: 'a) =
       \<lparr>image_id = index, res_category_id = cat_id,
        res_bbox = [x1, y1, x2 - x1 + 1, y2 - y1 + 1], score = sc\<rparr> \<and>
     res_bbox (result_of index cat_id (10, 10, 20, 30, 9 / 10 :: rat)) = [10, 10, 11, 21]"
proof (intro conjI impI allI)
  note f = adapter_state_fields [OF assms]
  assume "boxes_shaped ds all_boxes"
  with assms have "collect_results ds all_boxes = Inr (flat_results ds all_boxes)"
    by (rule collect_results_shaped)
  then show "write_coco_results_file d ds all_boxes res_file =
          (Inr (), d(res_file \<mapsto> flat_results ds all_boxes))"
    by (simp add: write_coco_results_file_def)
next
  assume "\<not> boxes_shaped ds all_boxes"
  with assms have "collect_results ds all_boxes = Inl IndexError"
    by (rule collect_results_not_shaped)
  then show "write_coco_results_file d ds all_boxes res_file = (Inl IndexError, d)"
    by (simp add: write_coco_results_file_def)
next
  show "classes ds ! 0 = ''__background__''"
    by (simp add: adapter_state_fields(2) [OF assms])
next
  show "collect_results ds (b0 # rest) = collect_results ds (b0' # rest)"
    by (rule collect_results_skips_class_0) (simp add: adapter_state_fields(2) [OF assms])
next
  assume "''__background__'' \<notin> snd ` set (cats (COCO ds))"
  with assms show "flat_results ds all_boxes =
          concat (map (\<lambda>c. category_results (image_index ds) (all_boxes ! c)
                             (cat_id_of (cats (COCO ds)) (classes ds ! c)))
                    [1..<length (classes ds)])"
    by (rule flat_results_from_1)
next
  fix c
  assume d: "distinct (map snd (cats (COCO ds)))" and c: "0 < c \<and> c < length (classes ds)"
  then obtain k where k: "c = Suc k" "k < length (cats (COCO ds))"
    by (cases c) (auto simp: adapter_state_fields(2) [OF assms])
  with cat_id_of_distinct [OF d k(2)]
  show "cat_id_of (cats (COCO ds)) (classes ds ! c) = fst (cats (COCO ds) ! (c - 1))"
    by (simp add: adapter_state_fields(2) [OF assms])
qed (simp_all add: result_of_def category_results_def)

theorem write_coco_results_file_flattens_witness:
  "adapter_state street_ds \<and>
   boxes_shaped street_ds [[], [[(1, 2, 3, 4, 1 / 2 :: rat)]], [[(10, 10, 20, 30, 9 / 10)]]] \<and>
   write_coco_results_file Map.empty street_ds
      [[], [[(1, 2, 3, 4, 1 / 2 :: rat)]], [[(10, 10, 20, 30, 9 / 10)]]] ''output/results.json'' =
     (Inr (), [''output/results.json'' \<mapsto>
        [\<lparr>image_id = 93, res_category_id = 3, res_bbox = [1, 2, 3, 3], score = 1 / 2\<rparr>,
         \<lparr>image_id = 93, res_category_id = 7, res_bbox = [10, 10, 11, 21], score = 9 / 10\<rparr>]]) \<and>
   \<not> boxes_shaped street_ds [[], [[(1, 2, 3, 4, 1 / 2 :: rat)]]] \<and>
   write_coco_results_file Map.empty street_ds
      [[], [[(1, 2, 3, 4, 1 / 2 :: rat)]]] ''output/results.json'' = (Inl IndexError, Map.empty)"
proof -
  have f: "classes street_ds = [''__background__'', ''pedestrian'', ''rider'']"
    "image_index street_ds = [93]"
    "cats (COCO street_ds) = [(3, ''pedestrian''), (7, ''rider'')]"
    by (simp_all add: street_ds_def street_coco_def)
  have u: "[0..<length (classes street_ds)] = [0, 1, 2]"
    by (simp add: f upt_conv_Cons)
  have b: "boxes_shaped street_ds [[], [[(1, 2, 3, 4, 1 / 2 :: rat)]], [[(10, 10, 20, 30, 9 / 10)]]]"
    by (simp add: boxes_shaped_def u f)
  have n: "\<not> boxes_shaped street_ds [[], [[(1, 2, 3, 4, 1 / 2 :: rat)]]]"
    by (simp add: boxes_shaped_def u f)
  note t = write_coco_results_file_flattens [OF adapter_state_street, where d = Map.empty
      and res_file = "''output/results.json''"]
  have "write_coco_results_file Map.empty street_ds
      [[], [[(1, 2, 3, 4, 1 / 2 :: rat)]], [[(10, 10, 20, 30, 9 / 10)]]] ''output/results.json'' =
     (Inr (), [''output/results.json'' \<mapsto>
        flat_results street_ds [[], [[(1, 2, 3, 4, 1 / 2 :: rat)]], [[(10, 10, 20, 30, 9 / 10)]]]])"
    using t [THEN conjunct1] b by blast
  moreover have "flat_results street_ds
      [[], [[(1, 2, 3, 4, 1 / 2 :: rat)]], [[(10, 10, 20, 30, 9 / 10)]]] =
        [\<lparr>image_id = 93, res_category_id = 3, res_bbox = [1, 2, 3, 3], score = 1 / 2\<rparr>,
         \<lparr>image_id = 93, res_category_id = 7, res_bbox = [10, 10, 11, 21], score = 9 / 10\<rparr>]"
    by (simp add: flat_results_def u f category_results_def result_of_def cat_id_of_def)
  ultimately have 1: "write_coco_results_file Map.empty street_ds
      [[], [[(1, 2, 3, 4, 1 / 2 :: rat)]], [[(10, 10, 20, 30, 9 / 10)]]] ''output/results.json'' =
     (Inr (), [''output/results.json'' \<mapsto>
        [\<lparr>image_id = 93, res_category_id = 3, res_bbox = [1, 2, 3, 3], score = 1 / 2\<rparr>,
         \<lparr>image_id = 93, res_category_id = 7, res_bbox = [10, 10, 11, 21], score = 9 / 10\<rparr>]])"
    by simp
  have 2: "write_coco_results_file Map.empty street_ds
      [[], [[(1, 2, 3, 4, 1 / 2 :: rat)]]] ''output/results.json'' = (Inl IndexError, Map.empty)"
    using t [THEN conjunct2, THEN conjunct1] n by blast
  from adapter_state_street b 1 n 2 show ?thesis
    by (intro conjI)
qed

section \<open>Properties of the class table\<close>

text \<open>
  In every state of the adapter the lookup table of the conversion is always
  built, with one entry for each category, and every class index in it is an index of the
  class list: the conversion cannot fail for the table's sake, and a row of the overlap
  matrix is never written out of range.
\<close>

lemma dict_get_zip_total:
  assumes "length ks = length vs" and "k \<in> set ks"
  shows "\<exists>v. dict_get (zip ks vs) k = Inr v"
proof -
  have "fst ` set (rev (zip ks vs)) = set (map fst (zip ks vs))"
    by simp
  also have "\<dots> = set ks"
    using assms(1) by (simp only: map_fst_zip)
  finally have "k \<in> fst ` set (rev (zip ks vs))"
    using assms(2) by simp
  then have "map_of (rev (zip ks vs)) k \<noteq> None"
    by (simp add: map_of_eq_None_iff)
  then show ?thesis
    by (auto simp: dict_get_def split: option.splits)
qed

lemma dict_get_zip_upt:
  assumes "dict_get (zip ks [0..<length ks]) k = Inr v"
  shows "v < length ks"
proof -
  from assms have "map_of (rev (zip ks [0..<length ks])) k = Some v"
    by (auto simp: dict_get_def split: option.splits)
  then have "(k, v) \<in> set (zip ks [0..<length ks])"
    by (auto dest: map_of_SomeD)
  then have "v \<in> set [0..<length ks]"
    by (rule set_zip_rightD)
  then show ?thesis
    by simp
qed

lemma adapter_state_class_table:
  assumes "adapter_state ds"
  shows "\<exists>table. coco_cat_id_to_class_ind ds = Inr table \<and>
     length table = length (cats (COCO ds)) \<and>
     (\<forall>e \<in> set table. snd e < length (classes ds))"
proof -
  let ?names = "map snd (cats (COCO ds))"
  have cl: "classes ds = ''__background__'' # ?names"
    and ind: "class_to_ind ds = zip (classes ds) [0..<length (classes ds)]"
    and tab: "class_to_coco_cat_id ds = zip ?names (map fst (cats (COCO ds)))"
    using adapter_state_fields(2-4) [OF assms] by simp_all
  let ?f = "\<lambda>cls. case dict_get (class_to_coco_cat_id ds) cls of
          Inl e \<Rightarrow> Inl e
        | Inr cid \<Rightarrow> (case dict_get (class_to_ind ds) cls of
                       Inl e \<Rightarrow> Inl e
                     | Inr ind \<Rightarrow> Inr (cid, ind))"
  define g where "g cls = (case ?f cls of Inr p \<Rightarrow> p | Inl e \<Rightarrow> (0, 0))" for cls
  have ok: "?f cls = Inr (g cls) \<and> snd (g cls) < length (classes ds)" if "cls \<in> set ?names" for cls
  proof -
    from that obtain cid where c: "dict_get (class_to_coco_cat_id ds) cls = Inr cid"
      unfolding tab using dict_get_zip_total [of ?names "map fst (cats (COCO ds))" cls] by auto
    from that have "cls \<in> set (classes ds)"
      by (simp add: cl)
    then obtain v where v: "dict_get (class_to_ind ds) cls = Inr v"
      using dict_get_zip_total [of "classes ds" "[0..<length (classes ds)]" cls]
      by (auto simp: ind [symmetric])
    then have "v < length (classes ds)"
      using dict_get_zip_upt [of "classes ds" cls v] by (simp add: ind [symmetric])
    with c v show ?thesis
      by (simp add: g_def)
  qed
  then have "mapM ?f ?names = Inr (map g ?names)"
    by (intro mapM_all_Inr) simp
  then have "coco_cat_id_to_class_ind ds = Inr (map g ?names)"
    by (simp add: coco_cat_id_to_class_ind_def cl)
  moreover have "\<forall>e \<in> set (map g ?names). snd e < length (classes ds)"
    using ok by auto
  ultimately show ?thesis
    by simp
qed

section \<open>Properties of image paths\<close>

lemma digit_of_nth: "k < 10 \<Longrightarrow> digit_of (''0123456789'' ! k) = k"
proof -
  assume "k < 10"
  then have "k = 0 \<or> k = 1 \<or> k = 2 \<or> k = 3 \<or> k = 4 \<or> k = 5 \<or> k = 6 \<or> k = 7 \<or> k = 8 \<or> k = 9"
    by arith
  then show ?thesis
    by (elim disjE) (simp_all add: digit_of_def)
qed

lemma dec_value_snoc: "dec_value (s @ [c]) = 10 * dec_value s + digit_of c"
  by (simp add: dec_value_def)

lemma dec_value_str_nat: "dec_value (str_nat n) = n"
proof (induction n rule: str_nat.induct)
  case (1 n)
  show ?case
  proof (cases "n < 10")
    case True
    then show ?thesis
      by (simp add: str_nat.simps [of n] dec_value_def digit_of_nth)
  next
    case False
    with 1 have "dec_value (str_nat (n div 10)) = n div 10" by simp
    with False show ?thesis
      by (simp add: str_nat.simps [of n] dec_value_snoc digit_of_nth)
  qed
qed

lemma str_nat_not_Nil: "str_nat n \<noteq> []"
  by (subst str_nat.simps) simp

lemma str_nat_digits: "set (str_nat n) \<subseteq> set ''0123456789''"
proof (induction n rule: str_nat.induct)
  case (1 n)
  have d: "\<And>k. k < 10 \<Longrightarrow> ''0123456789'' ! k \<in> set ''0123456789''"
    by (rule nth_mem) simp
  show ?case
  proof (cases "n < 10")
    case True
    then show ?thesis using d [of n] by (subst str_nat.simps) simp
  next
    case False
    then show ?thesis using 1 d [of "n mod 10"] by (subst str_nat.simps) simp
  qed
qed

lemma str_nat_length: "0 < k \<Longrightarrow> n < 10 ^ k \<Longrightarrow> length (str_nat n) \<le> k"
proof (induction n arbitrary: k rule: str_nat.induct)
  case (1 n)
  show ?case
  proof (cases "n < 10")
    case True
    then show ?thesis using "1.prems" by (subst str_nat.simps) simp
  next
    case False
    with "1.prems" have k: "1 < k"
      by (cases "k = 1") auto
    then obtain j where j: "k = Suc j" "0 < j" by (cases k) auto
    with "1.prems" have "n div 10 < 10 ^ j"
      by (simp add: less_mult_imp_div_less mult.commute)
    with 1 False j have "length (str_nat (n div 10)) \<le> j" by simp
    with False j show ?thesis by (subst str_nat.simps) simp
  qed
qed

lemma zfill_str_nat:
  "zfill w (str_nat n) = replicate (w - length (str_nat n)) CHR ''0'' @ str_nat n"
proof -
  have "hd (str_nat n) \<in> set ''0123456789''"
    using str_nat_digits [of n] str_nat_not_Nil [of n] hd_in_set by blast
  then have "hd (str_nat n) \<noteq> CHR ''+'' \<and> hd (str_nat n) \<noteq> CHR ''-''"
    by auto
  then show ?thesis
    by (simp add: zfill_def)
qed

lemma zfill_length: "length (zfill w s) = max w (length s)"
  by (cases s) (auto simp: zfill_def)

lemma py_nth_nat: "i < length xs \<Longrightarrow> py_nth xs (int i) = Inr (xs ! i)"
  by (simp add: py_nth_def)

lemma osp_join_plain:
  "dp \<noteq> [] \<Longrightarrow> last dp \<noteq> CHR ''/'' \<Longrightarrow> hd f \<noteq> CHR ''/'' \<Longrightarrow>
   osp_join dp [''JPEGImages'', f] = dp @ ''/JPEGImages/'' @ f"
  by (simp add: osp_join_def join_step_def)

text \<open>
  Claim C8. For a position \<open>i\<close> of the image index, \<^verbatim>\<open>image_path_at\<close> joins the data
  path, \<^verbatim>\<open>JPEGImages\<close> and \<^verbatim>\<open>img\<close> followed by the identifier filled with zeros to
  five digits and \<^verbatim>\<open>.jpg\<close>; it returns that path when the file exists and fails, with
  the assertion error, exactly when it does not. The function returns a value and has no
  state to change.
\<close>

theorem image_path_at_resolves:
  assumes "i < length (image_index ds)"
  shows "(let index = image_index ds ! i;
              file_name = ''img'' @ zfill 5 (str_int index) @ ''.jpg'';
              p = osp_join (data_path ds) [''JPEGImages'', file_name]
          in image_path_at ex ds (int i) = (if ex p then Inr p else Inl AssertionError) \<and>
             (image_path_at ex ds (int i) = Inl AssertionError \<longleftrightarrow> \<not> ex p) \<and>
             (data_path ds \<noteq> [] \<and> last (data_path ds) \<noteq> CHR ''/'' \<longrightarrow>
                p = data_path ds @ ''/JPEGImages/'' @ file_name) \<and>
             (0 \<le> index \<longrightarrow>
                zfill 5 (str_int index) =
                  replicate (5 - length (str_nat (nat index))) CHR ''0'' @ str_nat (nat index) \<and>
                dec_value (str_nat (nat index)) = nat index \<and>
                5 \<le> length (zfill 5 (str_int index)) \<and>
                (index < 100000 \<longrightarrow> length (zfill 5 (str_int index)) = 5)))"
proof -
  define index where "index = image_index ds ! i"
  have a: "image_path_at ex ds (int i) = image_path_from_index ex ds index"
    using assms by (simp add: image_path_at_def py_nth_nat index_def)
  have b: "index < 100000 \<Longrightarrow> 0 \<le> index \<Longrightarrow> length (str_nat (nat index)) \<le> 5"
    by (rule str_nat_length) auto
  show ?thesis
    unfolding Let_def index_def [symmetric] a
    using b
    by (auto simp: image_path_from_index_def Let_def osp_join_plain str_int_def
        zfill_str_nat dec_value_str_nat zfill_length)
qed

theorem image_path_at_resolves_witness:
  "image_path_at (\<lambda>p. p = ''data/WiderPedestrian/JPEGImages/img00093.jpg'') pedestrian_ds 0 =
     Inr ''data/WiderPedestrian/JPEGImages/img00093.jpg'' \<and>
   image_path_at (\<lambda>p. False) pedestrian_ds 0 = Inl AssertionError"
proof -
  have i: "image_index pedestrian_ds = [93]" and d: "data_path pedestrian_ds = ''data/WiderPedestrian''"
    by (simp_all add: pedestrian_ds_def)
  have z: "zfill 5 (str_int 93) = ''00093''"
    by code_simp
  have j: "osp_join ''data/WiderPedestrian'' [''JPEGImages'', ''img00093.jpg''] = ''data/WiderPedestrian/JPEGImages/img00093.jpg''"
    by (simp add: osp_join_def join_step_def)
  show ?thesis
    using image_path_at_resolves [of 0 pedestrian_ds "\<lambda>p. p = ''data/WiderPedestrian/JPEGImages/img00093.jpg''"]
      image_path_at_resolves [of 0 pedestrian_ds "\<lambda>p. False"]
    by (simp add: i d z j Let_def)
qed

end
